theory Spec2Isabelle
  imports Main
begin

section \<open>The string primitives the package calls\<close>

text \<open>
  Go strings are byte sequences; \<open>string\<close> (a list of 8-bit characters) is the same
  thing. The package calls \<open>strings.Replace(s, old, new, -1)\<close>, \<open>strings.Split\<close> and
  \<open>strings.Join\<close>, always with the non-empty constants declared in \<open>pointer.go\<close>.
  They are written out here for a non-empty \<open>old\<close> / \<open>sep\<close>: matches are found left to
  right and do not overlap. (Go's behaviour for an empty \<open>old\<close> or \<open>sep\<close>, which works
  on UTF-8 sequences, is never reached from this package; the functions below leave
  the input alone there.)
\<close>

function ReplaceAll :: "string \<Rightarrow> string \<Rightarrow> string \<Rightarrow> string" where
  "ReplaceAll [] old new = []"
| "ReplaceAll (c # s) old new =
     (if old \<noteq> [] \<and> take (length old) (c # s) = old
      then new @ ReplaceAll (drop (length old) (c # s)) old new
      else c # ReplaceAll s old new)"
  by pat_completeness auto
termination
  by (relation "measure (\<lambda>(s, old, new). length s)") auto

function Split :: "string \<Rightarrow> string \<Rightarrow> string list" where
  "Split [] sep = [[]]"
| "Split (c # s) sep =
     (if sep \<noteq> [] \<and> take (length sep) (c # s) = sep
      then [] # Split (drop (length sep) (c # s)) sep
      else (case Split s sep of
              [] \<Rightarrow> [[c]]
            | t # ts \<Rightarrow> (c # t) # ts))"
  by pat_completeness auto
termination
  by (relation "measure (\<lambda>(s, sep). length s)") auto

fun Join_strings :: "string list \<Rightarrow> string \<Rightarrow> string" where
  "Join_strings [] sep = []"
| "Join_strings [a] sep = a"
| "Join_strings (a # b # rest) sep = a @ sep @ Join_strings (b # rest) sep"

section \<open>Tokens and their escaping (pointer.go, lines 482-497)\<close>

definition separator :: string where "separator = ''/''"
definition escapedSeparator :: string where "escapedSeparator = ''~1''"
definition tilde :: string where "tilde = ''~''"
definition escapedTilde :: string where "escapedTilde = ''~0''"

definition unescapeToken :: "string \<Rightarrow> string" where
  "unescapeToken tok =
     ReplaceAll (ReplaceAll tok escapedSeparator separator) escapedTilde tilde"

definition escapeToken :: "string \<Rightarrow> string" where
  "escapeToken tok =
     ReplaceAll (ReplaceAll tok tilde escapedTilde) separator escapedSeparator"

text \<open>What the two passes of \<open>escapeToken\<close> do to a single byte.\<close>

definition esc_byte :: "char \<Rightarrow> string" where
  "esc_byte c = (if c = CHR ''~'' then ''~0'' else if c = CHR ''/'' then ''~1'' else [c])"


section \<open>Errors (error.go)\<close>

datatype ErrType = ErrUnknown | ErrInvalidJSONPointer | ErrGet | ErrSet

fun ErrType_String :: "ErrType \<Rightarrow> string" where
  "ErrType_String ErrInvalidJSONPointer = ''invalid pointer''"
| "ErrType_String ErrGet = ''get''"
| "ErrType_String ErrSet = ''set''"
| "ErrType_String ErrUnknown = ''unknown''"

text \<open>
  A Go \<open>error\<close> value as this package produces or receives it: either the package's
  own \<open>*Error\<close> (message, optional cause, type), or a plain error made by
  \<open>errors.New\<close> / \<open>fmt.Errorf\<close> without \<open>%w\<close> (also the shape of the errors of
  \<open>net/url\<close>), which carries only its text and has no \<open>Unwrap\<close> method.
\<close>

datatype error =
    errorString string
  | Error (msg: string) (cause: "error option") (errType: ErrType)

definition newError :: "ErrType \<Rightarrow> string \<Rightarrow> error" where
  "newError t m = Error m None t"

definition wrapError :: "error \<Rightarrow> ErrType \<Rightarrow> string \<Rightarrow> error" where
  "wrapError err t m = Error m (Some err) t"

text \<open>The method \<open>Error()\<close> of either kind of error.\<close>

fun error_Error :: "error \<Rightarrow> string" where
  "error_Error (errorString s) = s"
| "error_Error (Error m c t) = ErrType_String t @ '': '' @ m"

text \<open>Only \<open>*Error\<close> declares \<open>Unwrap\<close>; it returns the stored cause.\<close>

fun has_Unwrap :: "error \<Rightarrow> bool" where
  "has_Unwrap (Error m c t) = True"
| "has_Unwrap (errorString s) = False"

fun Unwrap :: "error \<Rightarrow> error option" where
  "Unwrap (Error m c t) = c"
| "Unwrap (errorString s) = None"

text \<open>
  How a call ends when it does not return a value: it returns an error, or the Go
  runtime panics.
\<close>

datatype failure = Returned error | Panicked string

section \<open>Pointers as token sequences (pointer.go)\<close>

type_synonym Pointer = "string list"

text \<open>
  \<open>net/url\<close> is outside the package. Of a parsed URL only the field \<open>Fragment\<close> is
  read; the parser itself is a parameter \<open>url_Parse\<close> of the functions below, which
  returns the fragment holder or the inner error (\<open>uerr.Err\<close>) of the \<open>*url.Error\<close>.
\<close>

record URL =
  Fragment :: string

text \<open>
  The dynamic argument of \<open>New\<close>, \<open>Join\<close> and \<open>RelativeTo\<close> (\<open>interface{}\<close>): a
  \<open>Pointer\<close>, a \<open>string\<close>, a \<open>*url.URL\<close> (possibly the nil pointer), or a value of
  any other type, given by the name \<open>%T\<close> prints for it.
\<close>

datatype arg =
    APointer Pointer
  | AString string
  | AURL "URL option"
  | AOther string

definition parse :: "string \<Rightarrow> failure + Pointer" where
  "parse str =
     (if length str = 0 then Inr []
      else if hd str \<noteq> CHR ''/''
      then Inl (Returned (newError ErrInvalidJSONPointer
                  ''non-empty references must begin with a '/' character''))
      else Inr (map unescapeToken (Split (tl str) separator)))"

fun New :: "(string \<Rightarrow> error + URL) \<Rightarrow> arg \<Rightarrow> failure + Pointer" where
  "New url_Parse (APointer v) = Inr v"
| "New url_Parse (AString v) =
     (if length v = 0 \<or> v = ''#'' then Inr []
      else if hd v = CHR ''/'' then parse v
      else (case url_Parse v of
              Inl uerr \<Rightarrow>
                Inl (Returned (wrapError uerr ErrInvalidJSONPointer
                       (''failed to parse URL: '' @ error_Error uerr)))
            | Inr u \<Rightarrow> parse (Fragment u)))"
| "New url_Parse (AURL None) = Inl (Panicked ''nil pointer dereference'')"
| "New url_Parse (AURL (Some v)) = parse (Fragment v)"
| "New url_Parse (AOther T) =
     Inl (Returned (newError ErrInvalidJSONPointer (''invalid value for pointer: '' @ T)))"

definition String :: "Pointer \<Rightarrow> string" where
  "String p =
     (if length p = 0 then []
      else ''/'' @ Join_strings (map escapeToken p) ''/'')"

definition IsEmpty :: "Pointer \<Rightarrow> bool" where
  "IsEmpty p = (length p = 0)"

text \<open>
  \<open>make(Pointer, n)\<close> is \<open>n\<close> empty strings; \<open>copy(dst, src)\<close> overwrites the first
  \<open>min (len dst) (len src)\<close> elements of \<open>dst\<close>.
\<close>

definition make :: "nat \<Rightarrow> Pointer" where
  "make n = replicate n []"

definition copy :: "Pointer \<Rightarrow> Pointer \<Rightarrow> Pointer" where
  "copy dst src =
     (let n = min (length dst) (length src) in take n src @ drop n dst)"

text \<open>
  \<open>Parent\<close>: the new sequence has \<open>len(p)\<close> elements, and \<open>copy\<close> fills the slice
  \<open>newPtr[:len(p)-1]\<close> of it; the last element keeps its zero value.
\<close>

definition Parent :: "Pointer \<Rightarrow> Pointer" where
  "Parent p =
     (if IsEmpty p then []
      else (let newPtr = make (length p)
            in copy (take (length p - 1) newPtr) p @ drop (length p - 1) newPtr))"

fun Join_loop :: "(string \<Rightarrow> error + URL) \<Rightarrow> Pointer \<Rightarrow> arg list \<Rightarrow> failure + Pointer" where
  "Join_loop url_Parse newPtr [] = Inr newPtr"
| "Join_loop url_Parse newPtr (APointer e # elems) = Join_loop url_Parse (newPtr @ e) elems"
| "Join_loop url_Parse newPtr (AOther T # elems) =
     Inl (Returned (errorString (''invalid value for pointer: '' @ T)))"
| "Join_loop url_Parse newPtr (e # elems) =
     (case New url_Parse e of
        Inl err \<Rightarrow> Inl err
      | Inr elmPtr \<Rightarrow> Join_loop url_Parse (newPtr @ elmPtr) elems)"

definition Join :: "(string \<Rightarrow> error + URL) \<Rightarrow> Pointer \<Rightarrow> arg list \<Rightarrow> failure + Pointer" where
  "Join url_Parse p elems = Join_loop url_Parse (copy (make (length p)) p) elems"

text \<open>
  The loop of \<open>RelativeTo\<close> over \<open>otherPtr\<close>, from index \<open>i\<close> with the current
  \<open>numCmnParts\<close>: \<open>None\<close> at the first differing token, else the final \<open>numCmnParts\<close>.
  An index outside \<open>p\<close> would panic; the length check before the loop excludes it.
\<close>

fun cmn_loop :: "Pointer \<Rightarrow> Pointer \<Rightarrow> nat \<Rightarrow> nat \<Rightarrow> failure + nat option" where
  "cmn_loop p [] i numCmnParts = Inr (Some numCmnParts)"
| "cmn_loop p (part # rest) i numCmnParts =
     (if i \<ge> length p then Inl (Panicked ''index out of range'')
      else if p ! i \<noteq> part then Inr None
      else cmn_loop p rest (Suc i) i)"

definition mismatch :: "Pointer \<Rightarrow> Pointer \<Rightarrow> error" where
  "mismatch p otherPtr = errorString (String p @ '' does not start with '' @ String otherPtr)"

text \<open>
  \<open>RelativeTo\<close> on token sequences. On a differing token Go returns \<open>p\<close> next to the
  error; the value returned next to an error is kept by the model on slices further
  down, not here.
\<close>

definition RelativeTo :: "(string \<Rightarrow> error + URL) \<Rightarrow> Pointer \<Rightarrow> arg \<Rightarrow> failure + Pointer" where
  "RelativeTo url_Parse p other =
     (case (case other of
              APointer o' \<Rightarrow> Inr o'
            | AOther T \<Rightarrow> Inl (Returned (errorString (''invalid value for pointer: '' @ T)))
            | _ \<Rightarrow> New url_Parse other) of
        Inl err \<Rightarrow> Inl err
      | Inr otherPtr \<Rightarrow>
          if length otherPtr > length p then Inl (Returned (mismatch p otherPtr))
          else (case cmn_loop p otherPtr 0 0 of
                  Inl f \<Rightarrow> Inl f
                | Inr None \<Rightarrow> Inl (Returned (mismatch p otherPtr))
                | Inr (Some numCmnParts) \<Rightarrow>
                    if numCmnParts + 1 > length p
                    then Inl (Panicked ''slice bounds out of range'')
                    else Inr (copy (make (length (drop (numCmnParts + 1) p)))
                                (drop (numCmnParts + 1) p))))"

text \<open>
  A small stand-in for \<open>url.Parse\<close>, used only to run the functions on examples: it
  cuts the input at the first \<open>#\<close> and rejects an input whose part before the \<open>#\<close>
  starts with a colon, as Go does with "missing protocol scheme". Percent-decoding is
  left out. Every general theorem below holds for any \<open>url_Parse\<close>.
\<close>

definition cut_fragment :: "string \<Rightarrow> error + URL" where
  "cut_fragment rawURL =
     (let u = takeWhile (\<lambda>c. c \<noteq> CHR ''#'') rawURL
      in if u \<noteq> [] \<and> hd u = CHR '':'' then Inl (errorString ''missing protocol scheme'')
         else Inr \<lparr>Fragment = drop (length u + 1) rawURL\<rparr>)"

section \<open>The numeric conversions of \<open>strconv\<close> that the package calls\<close>

text \<open>
  \<open>strconv\<close> belongs to the Go library. Its integer functions are written out from
  their documentation, for base 10 and 64-bit results (\<open>int\<close> is taken to be 64 bits
  wide): an optional sign for the signed parser, then one or more decimal digits,
  and a range check.
\<close>

definition is_digit :: "char \<Rightarrow> bool" where
  "is_digit c = (48 \<le> (of_char c :: int) \<and> (of_char c :: int) \<le> 57)"

fun digits_value :: "int \<Rightarrow> string \<Rightarrow> int" where
  "digits_value acc [] = acc"
| "digits_value acc (c # cs) = digits_value (10 * acc + (of_char c - 48)) cs"

definition ParseUint :: "string \<Rightarrow> nat option" where
  "ParseUint s =
     (if s = [] \<or> \<not> list_all is_digit s then None
      else if digits_value 0 s \<ge> 2 ^ 64 then None
      else Some (nat (digits_value 0 s)))"

definition ParseInt :: "string \<Rightarrow> int option" where
  "ParseInt s0 =
     (if s0 = [] then None
      else (let neg = (hd s0 = CHR ''-'');
                s = (if hd s0 = CHR ''+'' \<or> hd s0 = CHR ''-'' then tl s0 else s0)
            in if s = [] \<or> \<not> list_all is_digit s then None
               else if \<not> neg \<and> digits_value 0 s \<ge> 2 ^ 63 then None
               else if neg \<and> digits_value 0 s > 2 ^ 63 then None
               else Some (if neg then - digits_value 0 s else digits_value 0 s)))"

definition Atoi :: "string \<Rightarrow> int option" where
  "Atoi s = ParseInt s"

definition ParseBool :: "string \<Rightarrow> bool option" where
  "ParseBool str =
     (if str \<in> set [''1'', ''t'', ''T'', ''TRUE'', ''true'', ''True''] then Some True
      else if str \<in> set [''0'', ''f'', ''F'', ''FALSE'', ''false'', ''False''] then Some False
      else None)"

function FormatUint :: "nat \<Rightarrow> string" where
  "FormatUint n =
     (if n < 10 then [char_of (48 + n)]
      else FormatUint (n div 10) @ [char_of (48 + n mod 10)])"
  by pat_completeness auto
termination
  by (relation "measure (\<lambda>n. n)") auto

definition FormatInt :: "int \<Rightarrow> string" where
  "FormatInt i = (if i < 0 then CHR ''-'' # FormatUint (nat (- i)) else FormatUint (nat i))"

text \<open>Conversion between integer types keeps the low bits (two's complement).\<close>

definition wrap_unsigned :: "nat \<Rightarrow> int \<Rightarrow> nat" where
  "wrap_unsigned w x = nat (x mod 2 ^ w)"

definition wrap_signed :: "nat \<Rightarrow> int \<Rightarrow> int" where
  "wrap_signed w x = (x + 2 ^ (w - 1)) mod 2 ^ w - 2 ^ (w - 1)"

section \<open>Documents as \<open>reflect\<close> shows them\<close>

datatype IntKind = GoInt | GoInt8 | GoInt16 | GoInt32 | GoInt64
datatype UintKind = GoUint | GoUint8 | GoUint16 | GoUint32 | GoUint64
datatype FloatKind = GoFloat32 | GoFloat64
datatype ComplexKind = GoComplex64 | GoComplex128

text \<open>\<open>reflect.Kind\<close>, the sized kinds grouped as the \<open>switch\<close> statements group them.\<close>

datatype Kind =
    KInvalid | KBool | KInt IntKind | KUint UintKind | KUintptr
  | KFloat FloatKind | KComplex ComplexKind
  | KArray | KChan | KFunc | KInterface | KMap | KPointer | KSlice | KString | KStruct
  | KUnsafePointer

fun IntKind_String :: "IntKind \<Rightarrow> string" where
  "IntKind_String GoInt = ''int''"
| "IntKind_String GoInt8 = ''int8''"
| "IntKind_String GoInt16 = ''int16''"
| "IntKind_String GoInt32 = ''int32''"
| "IntKind_String GoInt64 = ''int64''"

fun UintKind_String :: "UintKind \<Rightarrow> string" where
  "UintKind_String GoUint = ''uint''"
| "UintKind_String GoUint8 = ''uint8''"
| "UintKind_String GoUint16 = ''uint16''"
| "UintKind_String GoUint32 = ''uint32''"
| "UintKind_String GoUint64 = ''uint64''"

fun Kind_String :: "Kind \<Rightarrow> string" where
  "Kind_String KInvalid = ''invalid''"
| "Kind_String KBool = ''bool''"
| "Kind_String (KInt k) = IntKind_String k"
| "Kind_String (KUint k) = UintKind_String k"
| "Kind_String KUintptr = ''uintptr''"
| "Kind_String (KFloat GoFloat32) = ''float32''"
| "Kind_String (KFloat GoFloat64) = ''float64''"
| "Kind_String (KComplex GoComplex64) = ''complex64''"
| "Kind_String (KComplex GoComplex128) = ''complex128''"
| "Kind_String KArray = ''array''"
| "Kind_String KChan = ''chan''"
| "Kind_String KFunc = ''func''"
| "Kind_String KInterface = ''interface''"
| "Kind_String KMap = ''map''"
| "Kind_String KPointer = ''ptr''"
| "Kind_String KSlice = ''slice''"
| "Kind_String KString = ''string''"
| "Kind_String KStruct = ''struct''"
| "Kind_String KUnsafePointer = ''unsafe.Pointer''"

fun IntKind_bits :: "IntKind \<Rightarrow> nat" where
  "IntKind_bits GoInt = 64"
| "IntKind_bits GoInt8 = 8"
| "IntKind_bits GoInt16 = 16"
| "IntKind_bits GoInt32 = 32"
| "IntKind_bits GoInt64 = 64"

fun UintKind_bits :: "UintKind \<Rightarrow> nat" where
  "UintKind_bits GoUint = 64"
| "UintKind_bits GoUint8 = 8"
| "UintKind_bits GoUint16 = 16"
| "UintKind_bits GoUint32 = 32"
| "UintKind_bits GoUint64 = 64"

text \<open>A Go type, identified by its name (\<open>[]string\<close>, \<open>map[string]interface {}\<close>, \<open>*main.T\<close>).\<close>

type_synonym Type = string

text \<open>
  A struct field as \<open>reflect.StructField\<close> describes it: its name, what
  \<open>Tag.Get("json")\<close> returns for it, and whether it is exported. Fields promoted from
  embedded structs are not modelled.
\<close>

datatype field = StructField (Name: string) (json_tag: string) (exported: bool)

text \<open>
  A Go value as a tree. The payload \<open>'f\<close> stands for \<open>float64\<close>; a complex number is
  its real and imaginary part. A pointer or interface holds \<open>None\<close> when it is nil. A
  map is given by its entries with string keys and by whether its key type accepts a
  \<open>string\<close> at all. Channels, functions, unsafe pointers and \<open>uintptr\<close> are \<open>VOther\<close>.
\<close>

datatype 'f val =
    VBool bool
  | VInt IntKind int
  | VUint UintKind nat
  | VFloat FloatKind 'f
  | VComplex ComplexKind 'f 'f
  | VString string
  | VPtr Type "'f val option"
  | VIface "'f val option"
  | VArray Type "'f val list"
  | VSlice Type "'f val list"
  | VMap Type bool "(string \<times> 'f val) list"
  | VStruct Type "(field \<times> 'f val) list"
  | VOther Kind Type

fun val_Kind :: "'f val \<Rightarrow> Kind" where
  "val_Kind (VBool b) = KBool"
| "val_Kind (VInt k i) = KInt k"
| "val_Kind (VUint k u) = KUint k"
| "val_Kind (VFloat k f) = KFloat k"
| "val_Kind (VComplex k re im) = KComplex k"
| "val_Kind (VString s) = KString"
| "val_Kind (VPtr T x) = KPointer"
| "val_Kind (VIface x) = KInterface"
| "val_Kind (VArray T xs) = KArray"
| "val_Kind (VSlice T xs) = KSlice"
| "val_Kind (VMap T sk m) = KMap"
| "val_Kind (VStruct T fs) = KStruct"
| "val_Kind (VOther k T) = k"

fun val_Type :: "'f val \<Rightarrow> Type" where
  "val_Type (VPtr T x) = T"
| "val_Type (VIface x) = ''interface {}''"
| "val_Type (VArray T xs) = T"
| "val_Type (VSlice T xs) = T"
| "val_Type (VMap T sk m) = T"
| "val_Type (VStruct T fs) = T"
| "val_Type (VOther k T) = T"
| "val_Type v = Kind_String (val_Kind v)"

text \<open>
  A \<open>reflect.Value\<close>: the value it refers to (\<open>None\<close> for the zero Value), whether it
  is addressable, and whether it was reached through an unexported field.
\<close>

datatype 'f Value = Value (val_of: "'f val option") (flagAddr: bool) (flagRO: bool)

definition ValueOf :: "'f val option \<Rightarrow> 'f Value" where
  "ValueOf i = Value i False False"

definition CanSet :: "'f Value \<Rightarrow> bool" where
  "CanSet v = (flagAddr v \<and> \<not> flagRO v)"

section \<open>Reading: \<open>getValue\<close> and \<open>Get\<close> (pointer.go, lines 140-153 and 380-456)\<close>

text \<open>
  The arm for arrays and slices. \<open>Index\<close> panics on an index below zero; an element
  of a slice is always addressable, an element of an array when the array is.
\<close>

definition getValue_index :: "'f val list \<Rightarrow> bool \<Rightarrow> bool \<Rightarrow> string \<Rightarrow> failure + 'f Value" where
  "getValue_index xs addr ro key =
     (case Atoi key of
        None \<Rightarrow> Inl (Returned (newError ErrGet (''invalid array index: '' @ key)))
      | Some i \<Rightarrow>
          if i \<ge> int (length xs)
          then Inl (Returned (newError ErrGet
                 (''index '' @ FormatInt i @ '' exceeds array length of ''
                    @ FormatInt (int (length xs)))))
          else if i < 0 then Inl (Panicked ''reflect: index out of range'')
          else Inr (Value (Some (xs ! nat i)) addr ro))"

text \<open>The name before the first comma of a \<open>json\<close> tag.\<close>

definition tag_name :: "string \<Rightarrow> string" where
  "tag_name jsonTag = takeWhile (\<lambda>c. c \<noteq> CHR '','') jsonTag"

definition Field :: "(field \<times> 'f val) \<Rightarrow> bool \<Rightarrow> bool \<Rightarrow> 'f Value" where
  "Field fv addr ro = Value (Some (snd fv)) addr (ro \<or> \<not> exported (fst fv))"

definition getValue_struct ::
  "(field \<times> 'f val) list \<Rightarrow> bool \<Rightarrow> bool \<Rightarrow> string \<Rightarrow> failure + 'f Value" where
  "getValue_struct fs addr ro key =
     (case find (\<lambda>fv. Name (fst fv) = key) fs of
        Some fv \<Rightarrow> Inr (Field fv addr ro)
      | None \<Rightarrow>
          (case find (\<lambda>fv. json_tag (fst fv) \<noteq> [] \<and> json_tag (fst fv) \<noteq> ''-''
                            \<and> tag_name (json_tag (fst fv)) \<noteq> []
                            \<and> tag_name (json_tag (fst fv)) = key) fs of
             Some fv \<Rightarrow> Inr (Field fv addr ro)
           | None \<Rightarrow> Inl (Returned (newError ErrGet
                        (''struct has no field '' @ [CHR 39] @ key @ [CHR 39])))))"

definition getValue_map ::
  "bool \<Rightarrow> (string \<times> 'f val) list \<Rightarrow> bool \<Rightarrow> string \<Rightarrow> failure + 'f Value" where
  "getValue_map string_key m ro key =
     (if \<not> string_key then Inl (Panicked ''reflect.Value.MapIndex: key type mismatch'')
      else (case map_of m key of
              None \<Rightarrow> Inl (Returned (newError ErrGet
                        (''map has no key '' @ [CHR 39] @ key @ [CHR 39])))
            | Some x \<Rightarrow> Inr (Value (Some x) False ro)))"

fun getValue :: "'f Value \<Rightarrow> string \<Rightarrow> failure + 'f Value" where
  "getValue (Value None a ro) key =
     Inl (Returned (newError ErrGet ''document value is invalid''))"
| "getValue (Value (Some (VPtr T None)) a ro) key =
     Inl (Returned (newError ErrGet ''document value is nil''))"
| "getValue (Value (Some (VPtr T (Some x))) a ro) key = getValue (Value (Some x) True ro) key"
| "getValue (Value (Some (VIface None)) a ro) key =
     Inl (Returned (newError ErrGet ''document value is nil''))"
| "getValue (Value (Some (VIface (Some x))) a ro) key = getValue (Value (Some x) False ro) key"
| "getValue (Value (Some (VArray T xs)) a ro) key = getValue_index xs a ro key"
| "getValue (Value (Some (VSlice T xs)) a ro) key = getValue_index xs True ro key"
| "getValue (Value (Some (VMap T sk m)) a ro) key = getValue_map sk m ro key"
| "getValue (Value (Some (VStruct T fs)) a ro) key = getValue_struct fs a ro key"
| "getValue (Value (Some (VOther k T)) a ro) key =
     Inl (Returned (newError ErrGet (''unsupported document type '' @ Kind_String k)))"
| "getValue (Value (Some x) a ro) key =
     Inl (Returned (newError ErrGet ''primitive value has no fields''))"

text \<open>The loop over the tokens that \<open>Get\<close> and \<open>Set\<close> both start with.\<close>

fun walk :: "'f Value \<Rightarrow> Pointer \<Rightarrow> failure + 'f Value" where
  "walk v [] = Inr v"
| "walk v (part # rest) =
     (case getValue v part of
        Inl err \<Rightarrow> Inl err
      | Inr v' \<Rightarrow> walk v' rest)"

text \<open>\<open>Interface()\<close> of a valid Value: an interface-kinded Value gives what it holds.\<close>

fun Interface :: "'f val \<Rightarrow> 'f val option" where
  "Interface (VIface x) = x"
| "Interface v = Some v"

definition Get :: "Pointer \<Rightarrow> 'f val option \<Rightarrow> failure + 'f val option" where
  "Get p doc =
     (case walk (ValueOf doc) p of
        Inl err \<Rightarrow> Inl err
      | Inr resultVal \<Rightarrow>
          (case val_of resultVal of
             None \<Rightarrow> Inl (Panicked ''reflect: call of reflect.Value.CanInterface on zero Value'')
           | Some x \<Rightarrow>
               if flagRO resultVal
               then Inl (Returned (newError ErrGet ''cannot get document value''))
               else Inr (Interface x)))"

section \<open>Writing: \<open>setValue\<close> and \<open>Set\<close> (pointer.go, lines 155-378)\<close>

text \<open>
  What Go does with floating-point numbers is not written out; the operations that
  \<open>setValue\<close> applies to them are the fields of \<open>float_ops\<close>, a parameter of the model:
  \<open>float64(i)\<close> for an integer, \<open>int64(f)\<close> and \<open>uint64(f)\<close>, the test \<open>f == 0\<close>, the
  rounding to \<open>float32\<close> that storing into a 32-bit slot performs, and the formatting
  and parsing functions of \<open>strconv\<close> with the arguments used in \<open>setValue\<close>.
\<close>

datatype 'f float_ops = FloatOps
  (float64_of_int: "int \<Rightarrow> 'f")
  (int64_of_float: "'f \<Rightarrow> int")
  (uint64_of_float: "'f \<Rightarrow> nat")
  (float_is_zero: "'f \<Rightarrow> bool")
  (float32_round: "'f \<Rightarrow> 'f")
  (FormatFloat: "'f \<Rightarrow> string")
  (ParseFloat: "string \<Rightarrow> 'f option")
  (FormatComplex: "'f \<Rightarrow> 'f \<Rightarrow> string")
  (ParseComplex: "string \<Rightarrow> ('f \<times> 'f) option")

text \<open>\<open>indirect\<close> follows pointers and interfaces; \<open>Elem\<close> of a nil one is the zero Value.\<close>

fun indirect :: "'f val option \<Rightarrow> 'f val option" where
  "indirect (Some (VPtr T x)) = indirect x"
| "indirect (Some (VIface x)) = indirect x"
| "indirect v = v"

definition opt_Kind :: "'f val option \<Rightarrow> Kind" where
  "opt_Kind v = (case v of None \<Rightarrow> KInvalid | Some x \<Rightarrow> val_Kind x)"

text \<open>The arrow of the messages (U+279C between two spaces), as UTF-8 bytes.\<close>

definition arrow :: string where
  "arrow = [CHR 0x20, CHR 0xE2, CHR 0x9E, CHR 0x9C, CHR 0x20]"

definition type_mismatch :: "'f val option \<Rightarrow> Kind \<Rightarrow> failure" where
  "type_mismatch indSrcVal k =
     Returned (newError ErrSet
       (''type mismatch ('' @ Kind_String (opt_Kind indSrcVal) @ arrow @ Kind_String k @ '')''))"

definition conversion_failed :: "string \<Rightarrow> failure" where
  "conversion_failed target =
     Returned (newError ErrSet (''conversion failed (string'' @ arrow @ target @ '')''))"

text \<open>
  What \<open>SetInt\<close>, \<open>SetUint\<close>, \<open>SetFloat\<close> and \<open>SetComplex\<close> store in a slot of the given
  size.
\<close>

definition SetInt :: "IntKind \<Rightarrow> int \<Rightarrow> 'f val" where
  "SetInt k x = VInt k (wrap_signed (IntKind_bits k) x)"

definition SetUint :: "UintKind \<Rightarrow> nat \<Rightarrow> 'f val" where
  "SetUint k x = VUint k (wrap_unsigned (UintKind_bits k) (int x))"

definition SetFloat :: "'f float_ops \<Rightarrow> FloatKind \<Rightarrow> 'f \<Rightarrow> 'f val" where
  "SetFloat ops k x = VFloat k (case k of GoFloat32 \<Rightarrow> float32_round ops x | GoFloat64 \<Rightarrow> x)"

definition SetComplex :: "'f float_ops \<Rightarrow> ComplexKind \<Rightarrow> 'f \<Rightarrow> 'f \<Rightarrow> 'f val" where
  "SetComplex ops k re im =
     (case k of
        GoComplex64 \<Rightarrow> VComplex k (float32_round ops re) (float32_round ops im)
      | GoComplex128 \<Rightarrow> VComplex k re im)"

text \<open>The arms of the \<open>switch doc.Kind()\<close> for the scalar kinds, one definition each.\<close>

definition setValue_String :: "'f float_ops \<Rightarrow> 'f val option \<Rightarrow> failure + 'f val" where
  "setValue_String ops indSrcVal =
     (case indSrcVal of
        Some (VString s) \<Rightarrow> Inr (VString s)
      | Some (VInt k i) \<Rightarrow> Inr (VString (FormatInt i))
      | Some (VUint k u) \<Rightarrow> Inr (VString (FormatUint u))
      | Some (VFloat k f) \<Rightarrow> Inr (VString (FormatFloat ops f))
      | Some (VComplex k re im) \<Rightarrow> Inr (VString (FormatComplex ops re im))
      | Some (VBool b) \<Rightarrow> Inr (VString (if b then ''true'' else ''false''))
      | _ \<Rightarrow> Inl (type_mismatch indSrcVal KString))"

definition setValue_Int :: "'f float_ops \<Rightarrow> IntKind \<Rightarrow> 'f val option \<Rightarrow> failure + 'f val" where
  "setValue_Int ops dk indSrcVal =
     (case indSrcVal of
        Some (VInt k i) \<Rightarrow> Inr (SetInt dk i)
      | Some (VUint k u) \<Rightarrow> Inr (SetInt dk (wrap_signed 64 (int u)))
      | Some (VFloat k f) \<Rightarrow> Inr (SetInt dk (int64_of_float ops f))
      | Some (VComplex k re im) \<Rightarrow> Inr (SetInt dk (int64_of_float ops re))
      | Some (VBool b) \<Rightarrow> Inr (SetInt dk (if b then 1 else 0))
      | Some (VString s) \<Rightarrow>
          (case ParseInt s of
             None \<Rightarrow> Inl (conversion_failed ''int'')
           | Some i \<Rightarrow> Inr (SetInt dk i))
      | _ \<Rightarrow> Inl (type_mismatch indSrcVal (KInt dk)))"

definition setValue_Uint :: "'f float_ops \<Rightarrow> UintKind \<Rightarrow> 'f val option \<Rightarrow> failure + 'f val" where
  "setValue_Uint ops dk indSrcVal =
     (case indSrcVal of
        Some (VInt k i) \<Rightarrow> Inr (SetUint dk (wrap_unsigned 64 i))
      | Some (VUint k u) \<Rightarrow> Inr (SetUint dk u)
      | Some (VFloat k f) \<Rightarrow> Inr (SetUint dk (uint64_of_float ops f))
      | Some (VComplex k re im) \<Rightarrow> Inr (SetUint dk (uint64_of_float ops re))
      | Some (VBool b) \<Rightarrow> Inr (SetUint dk (if b then 1 else 0))
      | Some (VString s) \<Rightarrow>
          (case ParseUint s of
             None \<Rightarrow> Inl (conversion_failed ''uint'')
           | Some i \<Rightarrow> Inr (SetUint dk i))
      | _ \<Rightarrow> Inl (type_mismatch indSrcVal (KUint dk)))"

definition setValue_Float :: "'f float_ops \<Rightarrow> FloatKind \<Rightarrow> 'f val option \<Rightarrow> failure + 'f val" where
  "setValue_Float ops dk indSrcVal =
     (case indSrcVal of
        Some (VInt k i) \<Rightarrow> Inr (SetFloat ops dk (float64_of_int ops i))
      | Some (VUint k u) \<Rightarrow> Inr (SetFloat ops dk (float64_of_int ops (int u)))
      | Some (VFloat k f) \<Rightarrow> Inr (SetFloat ops dk f)
      | Some (VComplex k re im) \<Rightarrow> Inr (SetFloat ops dk re)
      | Some (VBool b) \<Rightarrow> Inr (SetFloat ops dk (float64_of_int ops (if b then 1 else 0)))
      | Some (VString s) \<Rightarrow>
          (case ParseFloat ops s of
             None \<Rightarrow> Inl (conversion_failed ''float'')
           | Some f \<Rightarrow> Inr (SetFloat ops dk f))
      | _ \<Rightarrow> Inl (type_mismatch indSrcVal (KFloat dk)))"

definition setValue_Bool :: "'f float_ops \<Rightarrow> 'f val option \<Rightarrow> failure + 'f val" where
  "setValue_Bool ops indSrcVal =
     (case indSrcVal of
        Some (VInt k i) \<Rightarrow> Inr (VBool (i \<noteq> 0))
      | Some (VUint k u) \<Rightarrow> Inr (VBool (u \<noteq> 0))
      | Some (VFloat k f) \<Rightarrow> Inr (VBool (\<not> float_is_zero ops f))
      | Some (VComplex k re im) \<Rightarrow> Inr (VBool (\<not> float_is_zero ops re))
      | Some (VBool b) \<Rightarrow> Inr (VBool b)
      | Some (VString s) \<Rightarrow>
          (case ParseBool s of
             None \<Rightarrow> Inl (conversion_failed ''bool'')
           | Some b \<Rightarrow> Inr (VBool b))
      | _ \<Rightarrow> Inl (type_mismatch indSrcVal KBool))"

definition setValue_Complex ::
  "'f float_ops \<Rightarrow> ComplexKind \<Rightarrow> 'f val option \<Rightarrow> failure + 'f val" where
  "setValue_Complex ops dk indSrcVal =
     (case indSrcVal of
        Some (VInt k i) \<Rightarrow>
          Inr (SetComplex ops dk (float64_of_int ops i) (float64_of_int ops 0))
      | Some (VUint k u) \<Rightarrow>
          Inr (SetComplex ops dk (float64_of_int ops (int u)) (float64_of_int ops 0))
      | Some (VFloat k f) \<Rightarrow> Inr (SetComplex ops dk f (float64_of_int ops 0))
      | Some (VComplex k re im) \<Rightarrow> Inr (SetComplex ops dk re im)
      | Some (VBool b) \<Rightarrow>
          Inr (SetComplex ops dk (float64_of_int ops (if b then 1 else 0)) (float64_of_int ops 0))
      | Some (VString s) \<Rightarrow>
          (case ParseComplex ops s of
             None \<Rightarrow> Inl (conversion_failed ''complex'')
           | Some c \<Rightarrow> Inr (SetComplex ops dk (fst c) (snd c)))
      | _ \<Rightarrow> Inl (type_mismatch indSrcVal (KComplex dk)))"

text \<open>The arm for pointers, arrays, slices, maps and structs.\<close>

definition setValue_structured :: "'f val \<Rightarrow> 'f val \<Rightarrow> failure + 'f val" where
  "setValue_structured d src =
     (if val_Type d \<noteq> val_Type src
      then Inl (Returned (newError ErrSet
             (''cannot set document value of type '' @ val_Type d
                @ '' to value of type '' @ val_Type src)))
      else Inr src)"

text \<open>
  \<open>setValue\<close>. The result is what the slot \<open>doc\<close> refers to holds after the call; on
  an error the slot is left as it was. \<open>Elem\<close> of an interface-kinded Value is not
  addressable and keeps the read-only flag.
\<close>

definition setValue :: "'f float_ops \<Rightarrow> 'f Value \<Rightarrow> 'f val option \<Rightarrow> failure + 'f val" where
  "setValue ops doc0 value =
     (let doc = (case val_of doc0 of
                   Some (VIface x) \<Rightarrow> Value x False (flagRO doc0)
                 | _ \<Rightarrow> doc0)
      in case val_of doc of
           None \<Rightarrow> Inl (Returned (errorString ''cannot set value on invalid document''))
         | Some d \<Rightarrow>
             if \<not> CanSet doc
             then Inl (Returned (errorString
                    ''cannot set value on unaddressable document or unexported field''))
             else (case value of
                     None \<Rightarrow> Inl (Returned (errorString ''cannot set value on invalid value''))
                   | Some src \<Rightarrow>
                       (let indSrcVal = indirect (Some src)
                        in case d of
                             VPtr T x \<Rightarrow> setValue_structured d src
                           | VArray T xs \<Rightarrow> setValue_structured d src
                           | VSlice T xs \<Rightarrow> setValue_structured d src
                           | VMap T sk m \<Rightarrow> setValue_structured d src
                           | VStruct T fs \<Rightarrow> setValue_structured d src
                           | VString s \<Rightarrow> setValue_String ops indSrcVal
                           | VInt k i \<Rightarrow> setValue_Int ops k indSrcVal
                           | VUint k u \<Rightarrow> setValue_Uint ops k indSrcVal
                           | VFloat k f \<Rightarrow> setValue_Float ops k indSrcVal
                           | VBool b \<Rightarrow> setValue_Bool ops indSrcVal
                           | VComplex k re im \<Rightarrow> setValue_Complex ops k indSrcVal
                           | _ \<Rightarrow> Inl (Returned (newError ErrSet
                                    (''unsupported type ('' @ Kind_String (val_Kind d) @ '')''))))))"

text \<open>
  What the caller's document looks like after a successful write. A slot that can be
  set is reached through pointers and slices only, so the write lands in memory the
  document shares, and the document shows the new value at the place the walk led
  to. \<open>putValue\<close> puts a new child where \<open>getValue\<close> finds the child for a key, and
  \<open>write_back\<close> does so along the whole pointer. (The document is a tree here: a
  pointer that occurs at two places of a document is two subtrees.)
\<close>

fun replace_first :: "('a \<Rightarrow> bool) \<Rightarrow> ('a \<Rightarrow> 'a) \<Rightarrow> 'a list \<Rightarrow> 'a list" where
  "replace_first P f [] = []"
| "replace_first P f (x # xs) = (if P x then f x # xs else x # replace_first P f xs)"

definition put_index :: "'f val list \<Rightarrow> string \<Rightarrow> 'f val \<Rightarrow> 'f val list" where
  "put_index xs key new =
     (case Atoi key of
        None \<Rightarrow> xs
      | Some i \<Rightarrow> if 0 \<le> i \<and> i < int (length xs) then xs[nat i := new] else xs)"

definition put_field :: "(field \<times> 'f val) list \<Rightarrow> string \<Rightarrow> 'f val \<Rightarrow> (field \<times> 'f val) list" where
  "put_field fs key new =
     (case find (\<lambda>fv. Name (fst fv) = key) fs of
        Some fv \<Rightarrow> replace_first (\<lambda>fv. Name (fst fv) = key) (\<lambda>fv. (fst fv, new)) fs
      | None \<Rightarrow>
          replace_first (\<lambda>fv. json_tag (fst fv) \<noteq> [] \<and> json_tag (fst fv) \<noteq> ''-''
                            \<and> tag_name (json_tag (fst fv)) \<noteq> []
                            \<and> tag_name (json_tag (fst fv)) = key)
            (\<lambda>fv. (fst fv, new)) fs)"

fun putValue :: "'f val \<Rightarrow> string \<Rightarrow> 'f val \<Rightarrow> 'f val" where
  "putValue (VPtr T (Some x)) key new = VPtr T (Some (putValue x key new))"
| "putValue (VIface (Some x)) key new = VIface (Some (putValue x key new))"
| "putValue (VArray T xs) key new = VArray T (put_index xs key new)"
| "putValue (VSlice T xs) key new = VSlice T (put_index xs key new)"
| "putValue (VMap T sk m) key new =
     VMap T sk (replace_first (\<lambda>kv. fst kv = key) (\<lambda>kv. (fst kv, new)) m)"
| "putValue (VStruct T fs) key new = VStruct T (put_field fs key new)"
| "putValue d key new = d"

fun write_back :: "'f Value \<Rightarrow> Pointer \<Rightarrow> 'f val \<Rightarrow> 'f val option" where
  "write_back v [] new = Some new"
| "write_back v (part # rest) new =
     (case getValue v part of
        Inl err \<Rightarrow> val_of v
      | Inr child \<Rightarrow>
          (case (val_of v, write_back child rest new) of
             (Some d, Some c) \<Rightarrow> Some (putValue d part c)
           | _ \<Rightarrow> val_of v))"

text \<open>
  \<open>Set\<close>: the walk to the slot, then \<open>setValue\<close>. The result is the document after the
  call; when an error is returned the document is as it was.
\<close>

definition Set ::
  "'f float_ops \<Rightarrow> Pointer \<Rightarrow> 'f val option \<Rightarrow> 'f val option \<Rightarrow> failure + 'f val option" where
  "Set ops p doc value =
     (case walk (ValueOf doc) p of
        Inl err \<Rightarrow> Inl err
      | Inr docVal \<Rightarrow>
          (case setValue ops docVal value of
             Inl err \<Rightarrow> Inl err
           | Inr new \<Rightarrow> Inr (write_back (ValueOf doc) p new)))"

text \<open>
  A stand-in for the growth of a slice's capacity, used only to run the functions on
  examples: the capacity doubles.
\<close>

definition grow_double :: "nat \<Rightarrow> nat \<Rightarrow> nat" where
  "grow_double c n = 2 * c"

text \<open>
  A stand-in for the floating-point operations, used only to run the functions on
  examples: floats that are whole numbers, kept as integers. Every general theorem
  below holds for any \<open>float_ops\<close>.
\<close>

definition whole_float_ops :: "int float_ops" where
  "whole_float_ops =
     FloatOps (\<lambda>i. i) (\<lambda>f. f) (\<lambda>f. nat f) (\<lambda>f. f = 0) (\<lambda>f. f)
       FormatInt ParseInt (\<lambda>re im. ''('' @ FormatInt re @ ''+'' @ FormatInt im @ ''i)'')
       (\<lambda>s. None)"

section \<open>Pointers as Go slices over shared arrays\<close>

text \<open>
  A \<open>Pointer\<close> is a Go slice: a window (offset, length, capacity) on a backing array
  that other slices may share. To speak about what a call leaves untouched, the
  backing arrays live in a store, a list of arrays addressed by position; an
  allocation appends a new array. The functions above, on token sequences, say what
  is computed; the functions of this section follow the same source lines and also
  say where it is stored.
\<close>

type_synonym store = "string list list"

datatype slice = NilSlice | Slice (base: nat) (off: nat) (slen: nat) (scap: nat)

fun len :: "slice \<Rightarrow> nat" where
  "len NilSlice = 0"
| "len (Slice b o' l c) = l"

text \<open>The tokens a slice shows.\<close>

fun tokens :: "store \<Rightarrow> slice \<Rightarrow> Pointer" where
  "tokens h NilSlice = []"
| "tokens h (Slice b o' l c) = take l (drop o' (h ! b))"

text \<open>A slice is valid in a store when its window lies inside an allocated array.\<close>

fun valid :: "store \<Rightarrow> slice \<Rightarrow> bool" where
  "valid h NilSlice = True"
| "valid h (Slice b o' l c) = (b < length h \<and> o' + c \<le> length (h ! b) \<and> l \<le> c)"

text \<open>Overwriting the elements of array \<open>b\<close> from position \<open>o'\<close> on with \<open>xs\<close>.\<close>

definition write_arr :: "store \<Rightarrow> nat \<Rightarrow> nat \<Rightarrow> string list \<Rightarrow> store" where
  "write_arr h b o' xs = h[b := take o' (h ! b) @ xs @ drop (o' + length xs) (h ! b)]"

text \<open>The assignment \<open>s[i] = v\<close>; \<open>None\<close> is the index-out-of-range panic.\<close>

fun store_elem :: "store \<Rightarrow> slice \<Rightarrow> nat \<Rightarrow> string \<Rightarrow> store option" where
  "store_elem h NilSlice i v = None"
| "store_elem h (Slice b o' l c) i v = (if i < l then Some (write_arr h b (o' + i) [v]) else None)"

definition make_h :: "store \<Rightarrow> nat \<Rightarrow> store \<times> slice" where
  "make_h h n = (h @ [replicate n []], Slice (length h) 0 n n)"

text \<open>\<open>copy(dst, src)\<close>, the elements of \<open>src\<close> read before any is written.\<close>

fun copy_h :: "store \<Rightarrow> slice \<Rightarrow> string list \<Rightarrow> store" where
  "copy_h h NilSlice src = h"
| "copy_h h (Slice b o' l c) src = write_arr h b o' (take (min l (length src)) src)"

text \<open>The slice expressions \<open>s[:k]\<close> and \<open>s[k:]\<close>; \<open>None\<close> is the bounds panic.\<close>

fun slice_to :: "slice \<Rightarrow> nat \<Rightarrow> slice option" where
  "slice_to NilSlice k = (if k = 0 then Some NilSlice else None)"
| "slice_to (Slice b o' l c) k = (if k \<le> c then Some (Slice b o' k c) else None)"

fun slice_from :: "slice \<Rightarrow> nat \<Rightarrow> slice option" where
  "slice_from NilSlice k = (if k = 0 then Some NilSlice else None)"
| "slice_from (Slice b o' l c) k =
     (if k \<le> l then Some (Slice b (o' + k) (l - k) (c - k)) else None)"

text \<open>
  \<open>append(s, xs...)\<close>: in place when the capacity suffices, else into a new array.
  How much capacity the new array gets is left to the Go runtime; \<open>grow\<close> (from the
  old capacity and the needed length) is a parameter, and at least the needed
  length is allocated.
\<close>

fun append_h :: "(nat \<Rightarrow> nat \<Rightarrow> nat) \<Rightarrow> store \<Rightarrow> slice \<Rightarrow> string list \<Rightarrow> store \<times> slice" where
  "append_h grow h NilSlice xs =
     (if xs = [] then (h, NilSlice)
      else (let c = max (length xs) (grow 0 (length xs))
            in (h @ [xs @ replicate (c - length xs) []], Slice (length h) 0 (length xs) c)))"
| "append_h grow h (Slice b o' l c) xs =
     (if l + length xs \<le> c then (write_arr h b (o' + l) xs, Slice b o' (l + length xs) c)
      else (let n = l + length xs; c' = max n (grow c n)
            in (h @ [take l (drop o' (h ! b)) @ xs @ replicate (c' - n) []],
                Slice (length h) 0 n c')))"

text \<open>What a call returns: a pointer and an error (either may be nil), or a panic.\<close>

datatype ret = Ret (ret_ptr: slice) (ret_err: "error option") | Panic string

datatype harg =
    HPointer slice
  | HString string
  | HURL "URL option"
  | HOther string

fun to_arg :: "store \<Rightarrow> harg \<Rightarrow> arg" where
  "to_arg h (HPointer s) = APointer (tokens h s)"
| "to_arg h (HString s) = AString s"
| "to_arg h (HURL u) = AURL u"
| "to_arg h (HOther T) = AOther T"

definition Parent_h :: "store \<Rightarrow> slice \<Rightarrow> store \<times> ret" where
  "Parent_h h p =
     (if len p = 0 then (h @ [[]], Ret (Slice (length h) 0 0 0) None)
      else (let (h1, newPtr) = make_h h (len p)
            in case slice_to newPtr (len p - 1) of
                 None \<Rightarrow> (h1, Panic ''slice bounds out of range'')
               | Some dst \<Rightarrow> (copy_h h1 dst (tokens h1 p), Ret newPtr None)))"

text \<open>
  The slice that \<open>New\<close> allocates for a string or URL part is used only to read its
  tokens; it is not placed in the store.
\<close>

fun Join_loop_h ::
  "(nat \<Rightarrow> nat \<Rightarrow> nat) \<Rightarrow> (string \<Rightarrow> error + URL) \<Rightarrow> store \<Rightarrow> slice \<Rightarrow> harg list
   \<Rightarrow> store \<times> ret" where
  "Join_loop_h grow url_Parse h newPtr [] = (h, Ret newPtr None)"
| "Join_loop_h grow url_Parse h newPtr (HPointer e # elems) =
     (let (h', newPtr') = append_h grow h newPtr (tokens h e)
      in Join_loop_h grow url_Parse h' newPtr' elems)"
| "Join_loop_h grow url_Parse h newPtr (HOther T # elems) =
     (h, Ret NilSlice (Some (errorString (''invalid value for pointer: '' @ T))))"
| "Join_loop_h grow url_Parse h newPtr (HString e # elems) =
     (case New url_Parse (AString e) of
        Inl (Returned err) \<Rightarrow> (h, Ret NilSlice (Some err))
      | Inl (Panicked s) \<Rightarrow> (h, Panic s)
      | Inr elmPtr \<Rightarrow>
          (let (h', newPtr') = append_h grow h newPtr elmPtr
           in Join_loop_h grow url_Parse h' newPtr' elems))"
| "Join_loop_h grow url_Parse h newPtr (HURL e # elems) =
     (case New url_Parse (AURL e) of
        Inl (Returned err) \<Rightarrow> (h, Ret NilSlice (Some err))
      | Inl (Panicked s) \<Rightarrow> (h, Panic s)
      | Inr elmPtr \<Rightarrow>
          (let (h', newPtr') = append_h grow h newPtr elmPtr
           in Join_loop_h grow url_Parse h' newPtr' elems))"

definition Join_h ::
  "(nat \<Rightarrow> nat \<Rightarrow> nat) \<Rightarrow> (string \<Rightarrow> error + URL) \<Rightarrow> store \<Rightarrow> slice \<Rightarrow> harg list
   \<Rightarrow> store \<times> ret" where
  "Join_h grow url_Parse h p elems =
     (let (h1, newPtr) = make_h h (len p)
      in Join_loop_h grow url_Parse (copy_h h1 newPtr (tokens h1 p)) newPtr elems)"

definition RelativeTo_h ::
  "(string \<Rightarrow> error + URL) \<Rightarrow> store \<Rightarrow> slice \<Rightarrow> harg \<Rightarrow> store \<times> ret" where
  "RelativeTo_h url_Parse h p other =
     (case (case other of
              HPointer o' \<Rightarrow> Inr (tokens h o')
            | HOther T \<Rightarrow> Inl (Returned (errorString (''invalid value for pointer: '' @ T)))
            | _ \<Rightarrow> New url_Parse (to_arg h other)) of
        Inl (Returned err) \<Rightarrow> (h, Ret NilSlice (Some err))
      | Inl (Panicked s) \<Rightarrow> (h, Panic s)
      | Inr otherPtr \<Rightarrow>
          if length otherPtr > len p
          then (h, Ret NilSlice (Some (mismatch (tokens h p) otherPtr)))
          else (case cmn_loop (tokens h p) otherPtr 0 0 of
                  Inl f \<Rightarrow> (h, Panic ''index out of range'')
                | Inr None \<Rightarrow> (h, Ret p (Some (mismatch (tokens h p) otherPtr)))
                | Inr (Some numCmnParts) \<Rightarrow>
                    (case slice_from p (numCmnParts + 1) of
                       None \<Rightarrow> (h, Panic ''slice bounds out of range'')
                     | Some cmnParts \<Rightarrow>
                         (let (h1, newPtr) = make_h h (len cmnParts)
                          in (copy_h h1 newPtr (tokens h1 cmnParts), Ret newPtr None)))))"

text \<open>
  \<open>keeps h h'\<close>: every array of the store \<open>h\<close> is still there, unchanged, in \<open>h'\<close>.
  \<open>fresh h s\<close>: the array of the slice \<open>s\<close> was allocated after \<open>h\<close>.
\<close>

definition keeps :: "store \<Rightarrow> store \<Rightarrow> bool" where
  "keeps h h' = (length h \<le> length h' \<and> take (length h) h' = h)"

fun fresh :: "store \<Rightarrow> slice \<Rightarrow> bool" where
  "fresh h NilSlice = True"
| "fresh h (Slice b o' l c) = (length h \<le> b)"

section \<open>Properties of the pointer syntax\<close>

section \<open>Escaping and unescaping are inverse\<close>

lemma replace_tilde:
  "ReplaceAll s ''~'' ''~0'' = concat (map (\<lambda>c. if c = CHR ''~'' then ''~0'' else [c]) s)"
  by (induction s) auto

lemma replace_slash_concat:
  "\<forall>c. CHR ''/'' \<in> set (f c) \<longrightarrow> f c = ''/'' \<Longrightarrow>
   ReplaceAll (concat (map f s)) ''/'' ''~1'' =
   concat (map (\<lambda>c. if f c = ''/'' then ''~1'' else f c) s)"
proof (induction s)
  case Nil
  then show ?case by simp
next
  case (Cons a s)
  have app: "ReplaceAll (u @ v) ''/'' ''~1'' = u @ ReplaceAll v ''/'' ''~1''"
    if "CHR ''/'' \<notin> set u" for u v
    using that by (induction u) auto
  show ?case
  proof (cases "f a = ''/''")
    case True
    with Cons show ?thesis by simp
  next
    case False
    with Cons.prems have "CHR ''/'' \<notin> set (f a)" by blast
    with Cons False show ?thesis by (simp add: app)
  qed
qed

lemma escapeToken_concat: "escapeToken s = concat (map esc_byte s)"
proof -
  let ?f = "\<lambda>c. if c = CHR ''~'' then ''~0'' else [c]"
  have "ReplaceAll (concat (map ?f s)) ''/'' ''~1'' =
        concat (map (\<lambda>c. if ?f c = ''/'' then ''~1'' else ?f c) s)"
    by (rule replace_slash_concat) auto
  moreover have "(\<lambda>c. if ?f c = ''/'' then ''~1'' else ?f c) = esc_byte"
    by (auto simp: esc_byte_def fun_eq_iff)
  ultimately show ?thesis
    by (simp add: escapeToken_def tilde_def escapedTilde_def separator_def
        escapedSeparator_def replace_tilde)
qed

lemma unescape_first_pass:
  "ReplaceAll (concat (map esc_byte s)) ''~1'' ''/'' =
   concat (map (\<lambda>c. if c = CHR ''~'' then ''~0'' else [c]) s)"
  by (induction s) (auto simp: esc_byte_def)

lemma unescape_second_pass:
  "ReplaceAll (concat (map (\<lambda>c. if c = CHR ''~'' then ''~0'' else [c]) s)) ''~0'' ''~'' = s"
  by (induction s) auto

lemma unescape_escape: "unescapeToken (escapeToken s) = s"
  by (simp add: escapeToken_concat unescapeToken_def escapedSeparator_def separator_def
      escapedTilde_def tilde_def unescape_first_pass unescape_second_pass)

text \<open>
  C5. For every string \<open>s\<close>, unescaping the escaped form of \<open>s\<close> gives \<open>s\<close> back, where
  \<open>escapeToken\<close> rewrites \<open>~\<close> before \<open>/\<close> and \<open>unescapeToken\<close> rewrites \<open>~1\<close> before
  \<open>~0\<close>; and \<open>escapeToken "a/b~c"\<close> is \<open>"a~1b~0c"\<close>, which unescapes to \<open>"a/b~c"\<close>.
\<close>

theorem escape_unescape_inverse:
  "unescapeToken (escapeToken s) = s
   \<and> escapeToken s = ReplaceAll (ReplaceAll s ''~'' ''~0'') ''/'' ''~1''
   \<and> unescapeToken t = ReplaceAll (ReplaceAll t ''~1'' ''/'') ''~0'' ''~''
   \<and> escapeToken ''a/b~c'' = ''a~1b~0c''
   \<and> unescapeToken ''a~1b~0c'' = ''a/b~c''"
proof -
  have e: "escapeToken ''a/b~c'' = ''a~1b~0c''"
    by (simp add: escapeToken_concat esc_byte_def)
  have u: "unescapeToken ''a~1b~0c'' = ''a/b~c''"
    using unescape_escape [of "''a/b~c''"] e by simp
  have d1: "escapeToken s = ReplaceAll (ReplaceAll s ''~'' ''~0'') ''/'' ''~1''"
    by (simp add: escapeToken_def tilde_def escapedTilde_def separator_def
        escapedSeparator_def)
  have d2: "unescapeToken t = ReplaceAll (ReplaceAll t ''~1'' ''/'') ''~0'' ''~''"
    by (simp add: unescapeToken_def tilde_def escapedTilde_def separator_def
        escapedSeparator_def)
  from unescape_escape [of s] d1 d2 e u show ?thesis by blast
qed



section \<open>Round trip of parsing and printing\<close>

lemma Split_not_Nil: "Split s sep \<noteq> []"
  by (induction s sep rule: Split.induct) (auto split: list.splits)

lemma Split_no_sep:
  "CHR ''/'' \<notin> set t \<Longrightarrow> Split t ''/'' = [t]"
  by (induction t) auto

lemma Split_app_sep:
  "CHR ''/'' \<notin> set t \<Longrightarrow> Split (t @ CHR ''/'' # s) ''/'' = t # Split s ''/''"
  by (induction t) auto

lemma Split_Join:
  "ts \<noteq> [] \<Longrightarrow> \<forall>t\<in>set ts. CHR ''/'' \<notin> set t \<Longrightarrow>
   Split (Join_strings ts ''/'') ''/'' = ts"
proof (induction ts "''/''" rule: Join_strings.induct)
  case 1
  then show ?case by simp
next
  case (2 a)
  then show ?case by (simp add: Split_no_sep)
next
  case (3 a b rest)
  then show ?case by (simp add: Split_app_sep)
qed

lemma slash_notin_escapeToken: "CHR ''/'' \<notin> set (escapeToken t)"
  by (auto simp: escapeToken_concat esc_byte_def)

lemma parse_String: "p \<noteq> [] \<Longrightarrow> parse (String p) = Inr p"
proof -
  assume ne: "p \<noteq> []"
  have "Split (Join_strings (map escapeToken p) ''/'') ''/'' = map escapeToken p"
    using ne by (intro Split_Join) (auto simp: slash_notin_escapeToken)
  then show ?thesis
    using ne by (simp add: parse_def String_def separator_def unescape_escape o_def)
qed

lemma New_String: "New url_Parse (AString (String p)) = Inr p"
proof (cases "p = []")
  case True
  then show ?thesis by (simp add: String_def)
next
  case False
  then obtain r where r: "String p = CHR ''/'' # r"
    by (simp add: String_def)
  from parse_String [OF False] r have "parse (CHR ''/'' # r) = Inr p"
    by simp
  with r show ?thesis by simp
qed

text \<open>
  C1. For every pointer \<open>p\<close> that \<open>New\<close> builds from a string starting with \<open>/\<close> or
  with \<open>#\<close>, parsing \<open>p.String()\<close> succeeds and the result prints as \<open>p.String()\<close>
  again (it is \<open>p\<close> itself).
\<close>

theorem parse_String_roundtrip:
  assumes "New url_Parse (AString s) = Inr p"
    and "s \<noteq> [] \<and> (hd s = CHR ''/'' \<or> hd s = CHR ''#'')"
  shows "\<exists>p'. New url_Parse (AString (String p)) = Inr p' \<and> String p' = String p \<and> p' = p"
  using New_String [of url_Parse p] by blast

theorem parse_String_roundtrip_witness:
  "New cut_fragment (AString ''#/a~1b/m~0n'') = Inr [''a/b'', ''m~n'']
   \<and> String [''a/b'', ''m~n''] = ''/a~1b/m~0n''
   \<and> New cut_fragment (AString ''/a~1b/m~0n'') = Inr [''a/b'', ''m~n'']"
proof -
  have n: "New cut_fragment (AString ''#/a~1b/m~0n'') = Inr [''a/b'', ''m~n'']"
    by (simp add: cut_fragment_def parse_def unescapeToken_def separator_def
        escapedSeparator_def tilde_def escapedTilde_def)
  have s: "String [''a/b'', ''m~n''] = ''/a~1b/m~0n''"
    by (simp add: String_def escapeToken_concat esc_byte_def)
  from parse_String_roundtrip [OF n] s n show ?thesis by simp
qed

section \<open>When parsing fails\<close>

lemma parse_fails_iff:
  "(\<exists>f. parse str = Inl f) \<longleftrightarrow> (str \<noteq> [] \<and> hd str \<noteq> CHR ''/'')"
  by (simp add: parse_def)

lemma parse_failure_typed:
  "parse str = Inl f \<Longrightarrow> \<exists>m. f = Returned (Error m None ErrInvalidJSONPointer)"
  by (auto simp: parse_def newError_def split: if_splits)

text \<open>
  C7. \<open>New\<close> on a string fails exactly when the string is handed to the URI layer
  (it is not empty, not \<open>#\<close>, and does not start with \<open>/\<close>) and either that
  layer rejects it or the fragment it yields is non-empty and does not start with
  \<open>/\<close>; every failure is an \<open>*Error\<close> of type \<open>ErrInvalidJSONPointer\<close>. So every
  string starting with \<open>/\<close> parses, among them \<open>/~2\<close> and \<open>/a~\<close>.
\<close>

theorem New_string_fails_iff:
  "((\<exists>f. New url_Parse (AString s) = Inl f) \<longleftrightarrow>
      (s \<noteq> [] \<and> s \<noteq> ''#'' \<and> hd s \<noteq> CHR ''/'' \<and>
       ((\<exists>e. url_Parse s = Inl e) \<or>
        (\<exists>u. url_Parse s = Inr u \<and> Fragment u \<noteq> [] \<and> hd (Fragment u) \<noteq> CHR ''/''))))
   \<and> (\<forall>f. New url_Parse (AString s) = Inl f \<longrightarrow>
          (\<exists>m c. f = Returned (Error m c ErrInvalidJSONPointer)))
   \<and> (s \<noteq> [] \<and> hd s = CHR ''/'' \<longrightarrow>
          New url_Parse (AString s) = Inr (map unescapeToken (Split (tl s) ''/'')))
   \<and> New url_Parse (AString ''/~2'') = Inr [''~2'']
   \<and> New url_Parse (AString ''/a~'') = Inr [''a~'']"
proof -
  have a: "(\<exists>f. New url_Parse (AString s) = Inl f) \<longleftrightarrow>
      (s \<noteq> [] \<and> s \<noteq> ''#'' \<and> hd s \<noteq> CHR ''/'' \<and>
       ((\<exists>e. url_Parse s = Inl e) \<or>
        (\<exists>u. url_Parse s = Inr u \<and> Fragment u \<noteq> [] \<and> hd (Fragment u) \<noteq> CHR ''/'')))"
    by (cases "url_Parse s") (auto simp: parse_def)
  have b: "\<forall>f. New url_Parse (AString s) = Inl f \<longrightarrow>
          (\<exists>m c. f = Returned (Error m c ErrInvalidJSONPointer))"
    by (cases "url_Parse s")
      (auto simp: wrapError_def split: if_splits dest: parse_failure_typed)
  have c: "s \<noteq> [] \<and> hd s = CHR ''/'' \<longrightarrow>
          New url_Parse (AString s) = Inr (map unescapeToken (Split (tl s) ''/''))"
    by (auto simp: parse_def separator_def)
  have d: "New url_Parse (AString ''/~2'') = Inr [''~2'']"
    by (simp add: parse_def separator_def unescapeToken_def escapedSeparator_def
        escapedTilde_def tilde_def)
  have e: "New url_Parse (AString ''/a~'') = Inr [''a~'']"
    by (simp add: parse_def separator_def unescapeToken_def escapedSeparator_def
        escapedTilde_def tilde_def)
  from a b c d e show ?thesis by blast
qed

theorem New_string_fails_iff_witness:
  "New cut_fragment (AString ''#7'') =
     Inl (Returned (Error ''non-empty references must begin with a '/' character'' None
                      ErrInvalidJSONPointer))
   \<and> New cut_fragment (AString ''://'') =
     Inl (Returned (Error ''failed to parse URL: missing protocol scheme''
                      (Some (errorString ''missing protocol scheme'')) ErrInvalidJSONPointer))
   \<and> New cut_fragment (AString ''/foo/'') = Inr [''foo'', '''']"
proof -
  have a: "New cut_fragment (AString ''#7'') =
     Inl (Returned (Error ''non-empty references must begin with a '/' character'' None
                      ErrInvalidJSONPointer))"
    by (simp add: cut_fragment_def parse_def newError_def)
  have b: "New cut_fragment (AString ''://'') =
     Inl (Returned (Error ''failed to parse URL: missing protocol scheme''
                      (Some (errorString ''missing protocol scheme'')) ErrInvalidJSONPointer))"
    by (simp add: cut_fragment_def wrapError_def)
  have c: "map unescapeToken (Split ''foo/'' ''/'') = [''foo'', '''']"
    by (simp add: unescapeToken_def escapedSeparator_def separator_def
        escapedTilde_def tilde_def)
  from New_string_fails_iff [of cut_fragment "''/foo/''"] c
  have "New cut_fragment (AString ''/foo/'') = Inr [''foo'', '''']"
    by simp
  with a b show ?thesis by simp
qed

section \<open>Parent, RelativeTo and Join on token sequences\<close>

lemma copy_make: "copy (make (length p)) p = p"
  by (simp add: copy_def make_def)

lemma Parent_eq: "Parent p = (if p = [] then [] else butlast p @ [[]])"
proof (cases "p = []")
  case True
  then show ?thesis by (simp add: Parent_def IsEmpty_def)
next
  case False
  then have l: "length p - (length p - 1) = 1" by (cases p) auto
  have "drop (length p - 1) (replicate (length p) ([]::string)) = [[]]"
    by (simp only: drop_replicate l) simp
  moreover have "min (length p - 1) (length p) = length p - 1" by simp
  ultimately show ?thesis
    using False by (simp add: Parent_def IsEmpty_def make_def copy_def Let_def butlast_conv_take)
qed

lemma Parent_length: "length (Parent p) = length p"
  by (simp add: Parent_eq)

text \<open>
  C2. The claim: for a pointer of \<open>n > 0\<close> tokens \<open>Parent\<close> returns its first \<open>n - 1\<close>
  tokens, and the root pointer for the root pointer. The code, run on \<open>/foo/bar\<close>:
  the result has two tokens, \<open>foo\<close> and the empty token, and prints as \<open>/foo/\<close>.
\<close>

theorem Parent_foo_bar:
  "Parent [''foo'', ''bar''] = [''foo'', '''']
   \<and> length (Parent [''foo'', ''bar'']) = 2
   \<and> String (Parent [''foo'', ''bar'']) = ''/foo/''
   \<and> Parent [] = []"
  by (simp add: Parent_eq String_def escapeToken_concat esc_byte_def)

lemma cmn_loop_prefix:
  "q \<noteq> [] \<Longrightarrow>
   cmn_loop (pre @ q @ r) q (length pre) n = Inr (Some (length pre + length q - 1))"
proof (induction q arbitrary: pre n)
  case Nil
  then show ?case by simp
next
  case (Cons a q)
  show ?case
  proof (cases "q = []")
    case True
    then show ?thesis by simp
  next
    case False
    from Cons.IH [OF False, of "pre @ [a]" "length pre"]
    show ?thesis by simp
  qed
qed

lemma RelativeTo_nonempty_prefix:
  "q \<noteq> [] \<Longrightarrow> RelativeTo url_Parse (q @ r) (APointer q) = Inr r"
proof -
  assume q: "q \<noteq> []"
  from cmn_loop_prefix [OF q, of "[]" r 0]
  have "cmn_loop (q @ r) q 0 0 = Inr (Some (length q - 1))" by simp
  moreover have "Suc (length q - 1) = length q" using q by (cases q) auto
  ultimately show ?thesis
    by (simp add: RelativeTo_def copy_make)
qed

lemma cmn_loop_mismatch:
  "i + length q \<le> length p \<Longrightarrow> take (length q) (drop i p) \<noteq> q \<Longrightarrow>
   cmn_loop p q i n = Inr None"
proof (induction q arbitrary: i n)
  case Nil
  then show ?case by simp
next
  case (Cons a q)
  from Cons.prems(1) have i: "i < length p" by simp
  show ?case
  proof (cases "p ! i = a")
    case False
    with i show ?thesis by simp
  next
    case True
    have d: "drop i p = a # drop (Suc i) p"
      using Cons_nth_drop_Suc [OF i] True by simp
    with Cons.prems(2) have "take (length q) (drop (Suc i) p) \<noteq> q"
      by simp
    moreover from Cons.prems(1) have "Suc i + length q \<le> length p" by simp
    ultimately have "cmn_loop p q (Suc i) i = Inr None"
      by (rule Cons.IH [rotated])
    with i True show ?thesis by simp
  qed
qed

lemma RelativeTo_mismatch:
  "length q > length p \<or> take (length q) p \<noteq> q \<Longrightarrow>
   RelativeTo url_Parse p (APointer q) = Inl (Returned (mismatch p q))"
proof (cases "length q > length p")
  case True
  then show ?thesis by (simp add: RelativeTo_def)
next
  case False
  assume "length q > length p \<or> take (length q) p \<noteq> q"
  with False have t: "take (length q) (drop 0 p) \<noteq> q" by simp
  from False have "0 + length q \<le> length p" by simp
  from cmn_loop_mismatch [OF this t, of 0] False show ?thesis
    by (simp add: RelativeTo_def)
qed

text \<open>
  C3. The claim: \<open>RelativeTo\<close> returns the tokens of \<open>p\<close> after those of the prefix
  whenever the prefix matches, the empty prefix included. The code, run with the
  empty prefix: on \<open>/foo/bar\<close> it returns \<open>/bar\<close>, dropping a token the prefix does
  not have, and on the root pointer it panics in the slice expression.
\<close>

theorem RelativeTo_empty_prefix:
  "RelativeTo url_Parse [''foo'', ''bar''] (AString '''') = Inr [''bar'']
   \<and> RelativeTo url_Parse [''foo'', ''bar''] (APointer []) = Inr [''bar'']
   \<and> RelativeTo url_Parse [] (APointer []) = Inl (Panicked ''slice bounds out of range'')"
  by (simp add: RelativeTo_def copy_def make_def)

lemma Join_loop_append:
  "Join_loop url_Parse q0 (pre @ rest) =
     (case Join_loop url_Parse q0 pre of
        Inl f \<Rightarrow> Inl f
      | Inr q \<Rightarrow> Join_loop url_Parse q rest)"
  by (induction url_Parse q0 pre rule: Join_loop.induct) (auto split: sum.splits)

text \<open>
  C10. An argument whose dynamic type is none of \<open>string\<close>, \<open>*url.URL\<close>, \<open>Pointer\<close>
  makes \<open>New\<close> return an \<open>*Error\<close> of type \<open>ErrInvalidJSONPointer\<close> ("invalid value for
  pointer"), and makes \<open>RelativeTo\<close> and \<open>Join\<close> return an error: \<open>Join\<close> returns that
  error when the parts before the argument were accepted, and never returns a
  pointer when such an argument is among its parts.
\<close>

theorem other_type_rejected:
  "New url_Parse (AOther T) =
     Inl (Returned (Error (''invalid value for pointer: '' @ T) None ErrInvalidJSONPointer))
   \<and> RelativeTo url_Parse p (AOther T) =
     Inl (Returned (errorString (''invalid value for pointer: '' @ T)))
   \<and> (\<forall>q. Join url_Parse p pre = Inr q \<longrightarrow>
        Join url_Parse p (pre @ AOther T # post) =
          Inl (Returned (errorString (''invalid value for pointer: '' @ T))))
   \<and> (\<forall>r. Join url_Parse p (pre @ AOther T # post) \<noteq> Inr r)"
  by (auto simp: newError_def RelativeTo_def Join_def Join_loop_append split: sum.splits)

theorem other_type_rejected_witness:
  "Join cut_fragment [''foo''] [AString ''/0''] = Inr [''foo'', ''0'']
   \<and> Join cut_fragment [''foo''] [AString ''/0'', AOther ''int'', APointer [''x'']] =
       Inl (Returned (errorString ''invalid value for pointer: int''))"
proof -
  have j: "Join cut_fragment [''foo''] [AString ''/0''] = Inr [''foo'', ''0'']"
    by (simp add: Join_def copy_def make_def parse_def separator_def unescapeToken_def
        escapedSeparator_def escapedTilde_def tilde_def)
  from other_type_rejected [of cut_fragment "''int''" "[''foo'']" "[AString ''/0'']" "[APointer [''x'']]"] j
  show ?thesis by simp
qed

section \<open>Indexing arrays and slices\<close>

lemma Atoi_minus_one: "Atoi ''-1'' = Some (- 1)"
  by (simp add: Atoi_def ParseInt_def is_digit_def)

lemma getValue_index_not_number:
  "Atoi key = None \<Longrightarrow>
   getValue_index xs a ro key = Inl (Returned (Error (''invalid array index: '' @ key) None ErrGet))"
  by (simp add: getValue_index_def newError_def)

lemma getValue_index_too_large:
  "Atoi key = Some i \<Longrightarrow> i \<ge> int (length xs) \<Longrightarrow>
   getValue_index xs a ro key =
     Inl (Returned (Error (''index '' @ FormatInt i @ '' exceeds array length of ''
                             @ FormatInt (int (length xs))) None ErrGet))"
  by (simp add: getValue_index_def newError_def)

lemma getValue_index_negative:
  "Atoi key = Some i \<Longrightarrow> i < 0 \<Longrightarrow>
   getValue_index xs a ro key = Inl (Panicked ''reflect: index out of range'')"
  by (simp add: getValue_index_def)

text \<open>
  C4. The claim: on an array or slice, a token that is not a non-negative decimal
  integer, \<open>-1\<close> among them, gives the \<open>Get\<close> error "invalid array index", and an
  index at or beyond the length gives the \<open>Get\<close> error naming index and length. The
  code, run on the token \<open>-1\<close>: \<open>Atoi\<close> accepts it, the only bound check is
  \<open>i >= doc.Len()\<close>, and \<open>doc.Index(-1)\<close> panics; no error is returned.
\<close>

theorem getValue_negative_index_panics:
  "getValue (Value (Some (VSlice T xs)) a ro) ''-1'' = Inl (Panicked ''reflect: index out of range'')
   \<and> getValue (Value (Some (VArray T xs)) a ro) ''-1'' = Inl (Panicked ''reflect: index out of range'')
   \<and> Get [''foo'', ''-1'']
        (Some (VMap ''map[string]interface {}'' True
           [(''foo'', VIface (Some (VSlice ''[]interface {}''
              [VIface (Some (VString ''bar'')), VIface (Some (VString ''baz''))])))]))
       = Inl (Panicked ''reflect: index out of range'')"
proof -
  have n: "getValue_index xs a ro ''-1'' = Inl (Panicked ''reflect: index out of range'')"
    for xs :: "'f val list" and a ro
    by (rule getValue_index_negative [OF Atoi_minus_one]) simp
  show ?thesis
    by (simp add: n Get_def ValueOf_def getValue_map_def)
qed

lemma fmt3: "FormatInt 3 = ''3''" "FormatInt 2 = ''2''" "FormatInt 42 = ''42''"
  by code_simp+

lemma fmt_neg: "FormatInt (- 120) = ''-120''"
  by code_simp

lemma Get_test_cases:
  "Get [''foo'', ''3'']
        (Some (VMap ''map[string]interface {}'' True
           [(''foo'', VIface (Some (VSlice ''[]interface {}''
              [VIface (Some (VString ''bar'')), VIface (Some (VString ''baz''))])))]))
     = Inl (Returned (Error ''index 3 exceeds array length of 2'' None ErrGet))"
  "Get [''foo'', ''bar'']
        (Some (VMap ''map[string]interface {}'' True
           [(''foo'', VIface (Some (VSlice ''[]interface {}''
              [VIface (Some (VString ''bar'')), VIface (Some (VString ''baz''))])))]))
     = Inl (Returned (Error ''invalid array index: bar'' None ErrGet))"
  by (simp_all add: Get_def ValueOf_def getValue_map_def getValue_index_def Atoi_def
      ParseInt_def is_digit_def newError_def fmt3)

section \<open>Coercion in setValue\<close>

lemma FormatInt_42: "FormatInt 42 = ''42''"
  by code_simp

lemma setValue_coerces:
  assumes "CanSet doc"
  shows "(val_of doc = Some (VString old) \<longrightarrow>
            setValue ops doc (Some (VInt k 42)) = Inr (VString ''42''))
       \<and> (val_of doc = Some (VFloat GoFloat64 f) \<longrightarrow>
            setValue ops doc (Some (VBool True)) = Inr (VFloat GoFloat64 (float64_of_int ops 1)))
       \<and> (val_of doc = Some (VFloat GoFloat32 f) \<longrightarrow>
            setValue ops doc (Some (VBool True)) =
              Inr (VFloat GoFloat32 (float32_round ops (float64_of_int ops 1))))
       \<and> (val_of doc = Some (VInt dk i) \<longrightarrow>
            setValue ops doc (Some (VString s)) =
              (case ParseInt s of
                 None \<Rightarrow> Inl (Returned (Error (''conversion failed (string'' @ arrow @ ''int)'')
                                           None ErrSet))
               | Some n \<Rightarrow> Inr (VInt dk (wrap_signed (IntKind_bits dk) n))))"
  using assms
  by (auto simp: setValue_def Let_def setValue_String_def setValue_Float_def setValue_Int_def
      SetFloat_def SetInt_def conversion_failed_def newError_def FormatInt_42
      split: option.splits)

section \<open>Which errors are typed, and which carry a cause\<close>

lemma New_error_typed:
  "New url_Parse a = Inl (Returned e) \<Longrightarrow> \<exists>m c. e = Error m c ErrInvalidJSONPointer"
  by (induction url_Parse a rule: New.induct)
    (auto simp: wrapError_def newError_def split: if_splits sum.splits
      dest: parse_failure_typed)

lemma New_error_cause:
  "New url_Parse a = Inl (Returned e) \<Longrightarrow> Unwrap e \<noteq> None \<Longrightarrow>
   \<exists>s uerr. a = AString s \<and> url_Parse s = Inl uerr \<and> Unwrap e = Some uerr"
  by (induction url_Parse a rule: New.induct)
    (auto simp: wrapError_def newError_def split: if_splits sum.splits
      dest: parse_failure_typed)

lemma getValue_error_typed:
  "getValue v key = Inl (Returned e) \<Longrightarrow> \<exists>m. e = Error m None ErrGet"
  by (induction v key rule: getValue.induct)
    (auto simp: newError_def getValue_index_def getValue_map_def getValue_struct_def
      split: option.splits if_splits)

lemma walk_error_typed:
  "walk v p = Inl (Returned e) \<Longrightarrow> \<exists>m. e = Error m None ErrGet"
  by (induction p arbitrary: v) (auto split: sum.splits dest: getValue_error_typed)

lemma Get_error_typed:
  "Get p doc = Inl (Returned e) \<Longrightarrow> \<exists>m. e = Error m None ErrGet"
  by (auto simp: Get_def newError_def split: sum.splits option.splits if_splits
      dest: walk_error_typed)

lemma setValue_String_error:
  "setValue_String ops ind = Inl (Returned e) \<Longrightarrow> \<exists>m. e = Error m None ErrSet"
  by (auto simp: setValue_String_def type_mismatch_def newError_def
      split: option.splits val.splits)

lemma setValue_Int_error:
  "setValue_Int ops k ind = Inl (Returned e) \<Longrightarrow> \<exists>m. e = Error m None ErrSet"
  by (auto simp: setValue_Int_def type_mismatch_def conversion_failed_def newError_def
      split: option.splits val.splits)

lemma setValue_Uint_error:
  "setValue_Uint ops k ind = Inl (Returned e) \<Longrightarrow> \<exists>m. e = Error m None ErrSet"
  by (auto simp: setValue_Uint_def type_mismatch_def conversion_failed_def newError_def
      split: option.splits val.splits)

lemma setValue_Float_error:
  "setValue_Float ops k ind = Inl (Returned e) \<Longrightarrow> \<exists>m. e = Error m None ErrSet"
  by (auto simp: setValue_Float_def type_mismatch_def conversion_failed_def newError_def
      split: option.splits val.splits)

lemma setValue_Bool_error:
  "setValue_Bool ops ind = Inl (Returned e) \<Longrightarrow> \<exists>m. e = Error m None ErrSet"
  by (auto simp: setValue_Bool_def type_mismatch_def conversion_failed_def newError_def
      split: option.splits val.splits)

lemma setValue_Complex_error:
  "setValue_Complex ops k ind = Inl (Returned e) \<Longrightarrow> \<exists>m. e = Error m None ErrSet"
  by (auto simp: setValue_Complex_def type_mismatch_def conversion_failed_def newError_def
      split: option.splits val.splits)

lemma setValue_structured_error:
  "setValue_structured d src = Inl (Returned e) \<Longrightarrow> \<exists>m. e = Error m None ErrSet"
  by (auto simp: setValue_structured_def newError_def split: if_splits)

lemma Join_loop_error:
  "Join_loop url_Parse q elems = Inl (Returned e) \<Longrightarrow>
   (\<exists>m c. e = Error m c ErrInvalidJSONPointer)
   \<or> (\<exists>T. e = errorString (''invalid value for pointer: '' @ T))"
  by (induction url_Parse q elems rule: Join_loop.induct)
    (auto simp del: New.simps split: sum.splits dest: New_error_typed)

lemma cmn_loop_no_error: "cmn_loop p q i n \<noteq> Inl (Returned e)"
  by (induction q arbitrary: i n) auto

lemma RelativeTo_error:
  "RelativeTo url_Parse p other = Inl (Returned e) \<Longrightarrow>
   (\<exists>m c. e = Error m c ErrInvalidJSONPointer)
   \<or> (\<exists>T. e = errorString (''invalid value for pointer: '' @ T))
   \<or> (\<exists>q. e = mismatch p q)"
  by (cases other)
    (auto simp: RelativeTo_def cmn_loop_no_error simp del: New.simps
      split: sum.splits if_splits option.splits dest: New_error_typed)

lemma String_a: "String [''a''] = ''/a''" "String [''b''] = ''/b''"
  by (simp_all add: String_def escapeToken_concat esc_byte_def)

text \<open>
  C8, as the claim states it, fails: the error \<open>RelativeTo\<close> returns for a prefix that
  does not match has no \<open>Unwrap\<close>, and the \<open>Set\<close> error for a string that is not a
  number has no cause.
\<close>

theorem plain_error_counterexample:
  "RelativeTo cut_fragment [''a''] (APointer [''b'']) =
     Inl (Returned (errorString ''/a does not start with /b''))
   \<and> \<not> has_Unwrap (errorString ''/a does not start with /b'')
   \<and> ParseInt ''3x'' = None
   \<and> Set whole_float_ops [''0''] (Some (VSlice ''[]int'' [VInt GoInt 7])) (Some (VString ''3x''))
       = Inl (Returned (Error (''conversion failed (string'' @ arrow @ ''int)'') None ErrSet))
   \<and> Unwrap (Error (''conversion failed (string'' @ arrow @ ''int)'') None ErrSet) = None"
proof -
  have r: "RelativeTo cut_fragment [''a''] (APointer [''b'']) =
     Inl (Returned (errorString ''/a does not start with /b''))"
    by (simp add: RelativeTo_def mismatch_def String_a)
  have p: "ParseInt ''3x'' = None" by (simp add: ParseInt_def is_digit_def)
  have z: "Atoi ''0'' = Some 0" by (simp add: Atoi_def ParseInt_def is_digit_def)
  have s: "Set whole_float_ops [''0''] (Some (VSlice ''[]int'' [VInt GoInt 7])) (Some (VString ''3x''))
       = Inl (Returned (Error (''conversion failed (string'' @ arrow @ ''int)'') None ErrSet))"
    by (simp add: Set_def ValueOf_def getValue_index_def z setValue_def CanSet_def
        setValue_Int_def p conversion_failed_def newError_def)
  from r p s show ?thesis by simp
qed

section \<open>Derived pointers and the arrays they share\<close>

lemma keeps_refl: "keeps h h"
  by (simp add: keeps_def)

lemma keeps_alloc: "keeps h0 h \<Longrightarrow> keeps h0 (h @ [a])"
  by (auto simp: keeps_def)

lemma keeps_write_arr: "keeps h0 h \<Longrightarrow> length h0 \<le> b \<Longrightarrow> keeps h0 (write_arr h b o' xs)"
  by (auto simp: keeps_def write_arr_def)

lemma keeps_nth: "keeps h h' \<Longrightarrow> b < length h \<Longrightarrow> h' ! b = h ! b"
  by (metis keeps_def nth_take)

lemma tokens_keeps: "keeps h h' \<Longrightarrow> valid h p \<Longrightarrow> tokens h' p = tokens h p"
  by (cases p) (auto simp: keeps_nth)

lemma valid_keeps: "keeps h h' \<Longrightarrow> valid h p \<Longrightarrow> valid h' p"
  by (cases p) (auto simp: keeps_nth keeps_def)

lemma keeps_length: "keeps h0 h \<Longrightarrow> length h0 \<le> length h"
  by (simp add: keeps_def)

lemma append_h_keeps:
  "keeps h0 h \<Longrightarrow> fresh h0 s \<Longrightarrow> s \<noteq> NilSlice \<Longrightarrow> append_h grow h s xs = (h', s') \<Longrightarrow>
   keeps h0 h' \<and> fresh h0 s' \<and> s' \<noteq> NilSlice"
  by (cases s) (auto simp: Let_def keeps_write_arr keeps_alloc keeps_length split: if_splits)

lemma Join_loop_h_keeps:
  "keeps h0 h \<Longrightarrow> fresh h0 newPtr \<Longrightarrow> newPtr \<noteq> NilSlice \<Longrightarrow>
   Join_loop_h grow url_Parse h newPtr elems = (h', r) \<Longrightarrow>
   keeps h0 h' \<and> (\<forall>s e. r = Ret s e \<longrightarrow> fresh h0 s)"
proof (induction grow url_Parse h newPtr elems rule: Join_loop_h.induct)
  case (1 grow url_Parse h newPtr)
  then show ?case by auto
next
  case (2 grow url_Parse h newPtr e elems)
  obtain h1 np where a: "append_h grow h newPtr (tokens h e) = (h1, np)"
    by (cases "append_h grow h newPtr (tokens h e)")
  from append_h_keeps [OF "2.prems"(1,2,3) a]
  have k: "keeps h0 h1" "fresh h0 np" "np \<noteq> NilSlice" by auto
  from "2.prems"(4) a have "Join_loop_h grow url_Parse h1 np elems = (h', r)" by simp
  from "2.IH" [OF a [symmetric] refl k this] show ?case .
next
  case (3 grow url_Parse h newPtr T elems)
  then show ?case by auto
next
  case (4 grow url_Parse h newPtr v elems)
  show ?case
  proof (cases "New url_Parse (AString v)")
    case (Inl f)
    with "4.prems" show ?thesis by (cases f) auto
  next
    case (Inr elmPtr)
    obtain h1 np where a: "append_h grow h newPtr elmPtr = (h1, np)"
      by (cases "append_h grow h newPtr elmPtr")
    from append_h_keeps [OF "4.prems"(1,2,3) a]
    have k: "keeps h0 h1" "fresh h0 np" "np \<noteq> NilSlice" by auto
    from "4.prems"(4) a Inr have "Join_loop_h grow url_Parse h1 np elems = (h', r)"
      by (simp del: New.simps)
    from "4.IH" [OF Inr a [symmetric] refl k this] show ?thesis .
  qed
next
  case (5 grow url_Parse h newPtr v elems)
  show ?case
  proof (cases "New url_Parse (AURL v)")
    case (Inl f)
    with "5.prems" show ?thesis by (cases f) auto
  next
    case (Inr elmPtr)
    obtain h1 np where a: "append_h grow h newPtr elmPtr = (h1, np)"
      by (cases "append_h grow h newPtr elmPtr")
    from append_h_keeps [OF "5.prems"(1,2,3) a]
    have k: "keeps h0 h1" "fresh h0 np" "np \<noteq> NilSlice" by auto
    from "5.prems"(4) a Inr have "Join_loop_h grow url_Parse h1 np elems = (h', r)"
      by (simp del: New.simps)
    from "5.IH" [OF Inr a [symmetric] refl k this] show ?thesis .
  qed
qed

lemma Join_h_keeps:
  "Join_h grow url_Parse h p elems = (h', r) \<Longrightarrow>
   keeps h h' \<and> (\<forall>s e. r = Ret s e \<longrightarrow> fresh h s)"
proof -
  assume j: "Join_h grow url_Parse h p elems = (h', r)"
  let ?np = "Slice (length h) 0 (len p) (len p)"
  let ?h1 = "h @ [replicate (len p) []]"
  have k1: "keeps h ?h1" by (simp add: keeps_alloc keeps_refl)
  have k2: "keeps h (copy_h ?h1 ?np (tokens ?h1 p))"
    using k1 by (simp add: keeps_write_arr)
  from j have "Join_loop_h grow url_Parse (copy_h ?h1 ?np (tokens ?h1 p)) ?np elems = (h', r)"
    by (simp add: Join_h_def make_h_def)
  from Join_loop_h_keeps [OF k2 _ _ this] show ?thesis by simp
qed

lemma Parent_h_keeps:
  "Parent_h h p = (h', r) \<Longrightarrow> keeps h h' \<and> (\<forall>s e. r = Ret s e \<longrightarrow> fresh h s)"
  by (auto simp: Parent_h_def make_h_def keeps_alloc keeps_refl keeps_write_arr
      split: if_splits)

lemma RelativeTo_h_keeps:
  "RelativeTo_h url_Parse h p other = (h', r) \<Longrightarrow>
   keeps h h' \<and> (\<forall>s. r = Ret s None \<longrightarrow> fresh h s)"
  unfolding RelativeTo_h_def
  by (auto simp: make_h_def keeps_alloc keeps_refl keeps_write_arr Let_def
      simp del: New.simps
      split: sum.splits failure.splits if_splits option.splits)

lemma store_elem_keeps:
  "keeps h h' \<Longrightarrow> fresh h r \<Longrightarrow> store_elem h' r i v = Some h'' \<Longrightarrow> keeps h h''"
  by (cases r) (auto simp: keeps_write_arr split: if_splits)

lemma length_tokens: "valid h p \<Longrightarrow> length (tokens h p) = len p"
  by (cases p) auto

lemma tokens_alloc: "valid h p \<Longrightarrow> tokens (h @ [a]) p = tokens h p"
  by (cases p) (auto simp: nth_append)

lemma Parent_h_refines:
  assumes "valid h p" and "Parent_h h p = (h', r)"
  shows "\<exists>s. r = Ret s None \<and> tokens h' s = Parent (tokens h p)"
proof (cases "len p = 0")
  case True
  with assms length_tokens [OF assms(1)] show ?thesis
    by (auto simp: Parent_h_def Parent_eq)
next
  case False
  let ?t = "tokens h p"
  let ?n = "len p"
  from assms(1) have lt: "length ?t = ?n" by (rule length_tokens)
  have t1: "tokens (h @ [replicate ?n []]) p = ?t"
    using assms(1) by (rule tokens_alloc)
  from False have n1: "?n - 1 \<le> ?n" "min (?n - 1) ?n = ?n - 1" by auto
  from assms(2) False t1 lt have
    h': "h' = write_arr (h @ [replicate ?n []]) (length h) 0 (take (?n - 1) ?t)"
    and r: "r = Ret (Slice (length h) 0 ?n ?n) None"
    by (auto simp: Parent_h_def make_h_def n1)
  have "tokens h' (Slice (length h) 0 ?n ?n) = take (?n - 1) ?t @ [[]]"
    using False lt by (simp add: h' write_arr_def min_def)
  moreover have "Parent ?t = butlast ?t @ [[]]"
    using False lt by (auto simp: Parent_eq)
  ultimately show ?thesis
    using r lt by (simp add: butlast_conv_take)
qed

lemma slice_from_tokens:
  "valid h p \<Longrightarrow> slice_from p k = Some q \<Longrightarrow>
   valid h q \<and> tokens h q = drop k (tokens h p) \<and> len q = len p - k"
  by (cases p) (auto split: if_splits simp: drop_take add.commute)

lemma copy_make_tokens:
  "length src = n \<Longrightarrow>
   tokens (copy_h (h @ [replicate n []]) (Slice (length h) 0 n n) src) (Slice (length h) 0 n n)
     = src"
  by (simp add: write_arr_def)

lemma RelativeTo_h_refines:
  assumes "valid h p" and "RelativeTo_h url_Parse h p other = (h', Ret s None)"
  shows "RelativeTo url_Parse (tokens h p) (to_arg h other) = Inr (tokens h' s)"
proof -
  let ?t = "tokens h p"
  from assms(1) have lt: "length ?t = len p" by (rule length_tokens)
  define q where "q = (case other of
              HPointer o' \<Rightarrow> Inr (tokens h o')
            | HOther T \<Rightarrow> Inl (Returned (errorString (''invalid value for pointer: '' @ T)))
            | _ \<Rightarrow> New url_Parse (to_arg h other))"
  have q': "q = (case to_arg h other of
              APointer o' \<Rightarrow> Inr o'
            | AOther T \<Rightarrow> Inl (Returned (errorString (''invalid value for pointer: '' @ T)))
            | _ \<Rightarrow> New url_Parse (to_arg h other))"
    by (cases other) (simp_all add: q_def)
  from assms(2) obtain otherPtr where o: "q = Inr otherPtr"
    unfolding RelativeTo_h_def q_def [symmetric]
    by (cases q) (auto split: failure.splits)
  from assms(2) o have le: "\<not> length otherPtr > len p"
    unfolding RelativeTo_h_def q_def [symmetric] by (auto split: if_splits)
  from assms(2) o le obtain num where c: "cmn_loop ?t otherPtr 0 0 = Inr (Some num)"
    unfolding RelativeTo_h_def q_def [symmetric]
    by (auto split: sum.splits option.splits)
  from assms(2) o le c obtain cmn where sf: "slice_from p (num + 1) = Some cmn"
    unfolding RelativeTo_h_def q_def [symmetric]
    by (auto split: option.splits)
  from slice_from_tokens [OF assms(1) sf]
  have v: "valid h cmn" and tc: "tokens h cmn = drop (num + 1) ?t" and lc: "len cmn = len p - (num + 1)"
    by auto
  from sf have nl: "num + 1 \<le> len p" by (cases p) (auto split: if_splits)
  have t1: "tokens (h @ [replicate (len cmn) []]) cmn = drop (num + 1) ?t"
    using tokens_alloc [OF v] tc by simp
  from assms(2) o le c sf have
    "h' = copy_h (h @ [replicate (len cmn) []]) (Slice (length h) 0 (len cmn) (len cmn))
            (drop (num + 1) ?t)"
    and "s = Slice (length h) 0 (len cmn) (len cmn)"
    unfolding RelativeTo_h_def q_def [symmetric]
    by (auto simp: make_h_def t1 simp del: copy_h.simps)
  then have "tokens h' s = drop (num + 1) ?t"
    using copy_make_tokens [of "drop (num + 1) ?t" "len cmn" h] lc lt by simp
  moreover have "RelativeTo url_Parse ?t (to_arg h other) = Inr (drop (num + 1) ?t)"
    unfolding RelativeTo_def q' [symmetric]
    using o le c nl lt copy_make [of "drop (num + 1) ?t"] by simp
  ultimately show ?thesis by simp
qed

lemma append_h_tokens:
  assumes "valid h s" and "s \<noteq> NilSlice" and "append_h grow h s xs = (h', s')"
  shows "valid h' s' \<and> tokens h' s' = tokens h s @ xs \<and> s' \<noteq> NilSlice"
proof -
  from assms(2) obtain b o' l c where s: "s = Slice b o' l c" by (cases s) auto
  let ?A = "h ! b"
  from assms(1) s have v: "b < length h" "o' + c \<le> length ?A" "l \<le> c" by auto
  show ?thesis
  proof (cases "l + length xs \<le> c")
    case True
    with assms(3) s have h': "h' = write_arr h b (o' + l) xs" and s': "s' = Slice b o' (l + length xs) c"
      by auto
    let ?B = "take (o' + l) ?A @ xs @ drop (o' + l + length xs) ?A"
    from v have B: "h' ! b = ?B" by (simp add: h' write_arr_def)
    from v True have lB: "length ?B = length ?A" by auto
    have d: "drop o' ?B = take l (drop o' ?A) @ xs @ drop (o' + l + length xs) ?A"
      using v by (simp add: drop_take min_def)
    have lt: "length (take l (drop o' ?A)) = l" using v by simp
    have "take (l + length xs) (drop o' ?B) = take l (drop o' ?A) @ xs"
      unfolding d using lt by (simp add: take_append)
    with B lB v True s s' show ?thesis by (simp add: h' write_arr_def)
  next
    case False
    let ?n = "l + length xs"
    let ?c = "max ?n (grow c ?n)"
    from assms(3) s False have
      h': "h' = h @ [take l (drop o' ?A) @ xs @ replicate (?c - ?n) []]"
      and s': "s' = Slice (length h) 0 ?n ?c"
      by (auto simp: Let_def)
    have lt: "length (take l (drop o' ?A)) = l" using v by simp
    show ?thesis
      using lt s by (simp add: h' s' take_append)
  qed
qed

lemma Join_loop_h_refines:
  "keeps h0 h \<Longrightarrow> fresh h0 newPtr \<Longrightarrow> valid h newPtr \<Longrightarrow> newPtr \<noteq> NilSlice \<Longrightarrow>
   \<forall>e. HPointer e \<in> set elems \<longrightarrow> valid h0 e \<Longrightarrow>
   Join_loop_h grow url_Parse h newPtr elems = (h', Ret s None) \<Longrightarrow>
   Join_loop url_Parse (tokens h newPtr) (map (to_arg h0) elems) = Inr (tokens h' s)"
proof (induction grow url_Parse h newPtr elems rule: Join_loop_h.induct)
  case (1 grow url_Parse h newPtr)
  then show ?case by simp
next
  case (2 grow url_Parse h newPtr e elems)
  obtain h1 np where a: "append_h grow h newPtr (tokens h e) = (h1, np)"
    by (cases "append_h grow h newPtr (tokens h e)")
  from "2.prems"(5) have ve: "valid h0 e" by simp
  from tokens_keeps [OF "2.prems"(1) ve] have te: "tokens h e = tokens h0 e" .
  from append_h_tokens [OF "2.prems"(3,4) a]
  have k: "valid h1 np" "tokens h1 np = tokens h newPtr @ tokens h0 e" "np \<noteq> NilSlice"
    by (auto simp: te)
  from append_h_keeps [OF "2.prems"(1,2,4) a] have k1: "keeps h0 h1" and f1: "fresh h0 np"
    by auto
  from "2.prems"(5) have v': "\<forall>e. HPointer e \<in> set elems \<longrightarrow> valid h0 e" by simp
  from "2.prems"(6) a have "Join_loop_h grow url_Parse h1 np elems = (h', Ret s None)" by simp
  from "2.IH" [OF a [symmetric] refl k1 f1 k(1) k(3) v' this] k(2) show ?case by simp
next
  case (3 grow url_Parse h newPtr T elems)
  then show ?case by simp
next
  case (4 grow url_Parse h newPtr v elems)
  from "4.prems"(6) obtain elmPtr where n: "New url_Parse (AString v) = Inr elmPtr"
    by (cases "New url_Parse (AString v)") (auto split: failure.splits simp del: New.simps)
  obtain h1 np where a: "append_h grow h newPtr elmPtr = (h1, np)"
    by (cases "append_h grow h newPtr elmPtr")
  from append_h_tokens [OF "4.prems"(3,4) a]
  have k: "valid h1 np" "tokens h1 np = tokens h newPtr @ elmPtr" "np \<noteq> NilSlice"
    by auto
  from append_h_keeps [OF "4.prems"(1,2,4) a] have k1: "keeps h0 h1" and f1: "fresh h0 np"
    by auto
  from "4.prems"(5) have v': "\<forall>e. HPointer e \<in> set elems \<longrightarrow> valid h0 e" by simp
  from "4.prems"(6) a n have "Join_loop_h grow url_Parse h1 np elems = (h', Ret s None)"
    by (simp del: New.simps)
  from "4.IH" [OF _ a [symmetric] refl k1 f1 k(1) k(3) v' this] n k(2) show ?case
    by (simp del: New.simps)
next
  case (5 grow url_Parse h newPtr v elems)
  from "5.prems"(6) obtain elmPtr where n: "New url_Parse (AURL v) = Inr elmPtr"
    by (cases "New url_Parse (AURL v)") (auto split: failure.splits simp del: New.simps)
  obtain h1 np where a: "append_h grow h newPtr elmPtr = (h1, np)"
    by (cases "append_h grow h newPtr elmPtr")
  from append_h_tokens [OF "5.prems"(3,4) a]
  have k: "valid h1 np" "tokens h1 np = tokens h newPtr @ elmPtr" "np \<noteq> NilSlice"
    by auto
  from append_h_keeps [OF "5.prems"(1,2,4) a] have k1: "keeps h0 h1" and f1: "fresh h0 np"
    by auto
  from "5.prems"(5) have v': "\<forall>e. HPointer e \<in> set elems \<longrightarrow> valid h0 e" by simp
  from "5.prems"(6) a n have "Join_loop_h grow url_Parse h1 np elems = (h', Ret s None)"
    by (simp del: New.simps)
  from "5.IH" [OF _ a [symmetric] refl k1 f1 k(1) k(3) v' this] n k(2) show ?case
    by (simp del: New.simps)
qed

lemma Join_h_refines:
  assumes "valid h p" and "\<forall>e. HPointer e \<in> set elems \<longrightarrow> valid h e"
    and "Join_h grow url_Parse h p elems = (h', Ret s None)"
  shows "Join url_Parse (tokens h p) (map (to_arg h) elems) = Inr (tokens h' s)"
proof -
  let ?n = "len p"
  let ?np = "Slice (length h) 0 ?n ?n"
  let ?h1 = "h @ [replicate ?n []]"
  let ?h2 = "copy_h ?h1 ?np (tokens ?h1 p)"
  have t1: "tokens ?h1 p = tokens h p" using assms(1) by (rule tokens_alloc)
  have lt: "length (tokens h p) = ?n" using assms(1) by (rule length_tokens)
  have k: "keeps h ?h2"
    by (simp add: keeps_write_arr keeps_alloc keeps_refl)
  have f: "fresh h ?np" by simp
  have tn: "tokens ?h2 ?np = tokens h p"
    unfolding t1 using lt by (rule copy_make_tokens)
  have v: "valid ?h2 ?np" by (simp add: write_arr_def)
  from assms(3) have jl: "Join_loop_h grow url_Parse ?h2 ?np elems = (h', Ret s None)"
    by (simp add: Join_h_def make_h_def)
  have "Join_loop url_Parse (tokens ?h2 ?np) (map (to_arg h) elems) = Inr (tokens h' s)"
    by (rule Join_loop_h_refines [OF k f v _ assms(2) jl]) simp
  then have "Join_loop url_Parse (tokens h p) (map (to_arg h) elems) = Inr (tokens h' s)"
    unfolding tn .
  then show ?thesis by (simp add: Join_def copy_make)
qed

text \<open>
  C9. \<open>Parent\<close>, \<open>Join\<close> and \<open>RelativeTo\<close> do not change the pointer they are applied
  to: after the call every array that existed before is as it was, so the tokens of
  \<open>p\<close> and \<open>p.String()\<close> are the same; and the pointer the call returns (without an
  error) lies in an array the call allocated, so that assigning to an element of it
  later does not change \<open>p\<close>.
\<close>

theorem derived_pointers_independent:
  assumes "valid h p"
    and "Parent_h h p = (h', r) \<or> Join_h grow url_Parse h p elems = (h', r)
         \<or> RelativeTo_h url_Parse h p other = (h', r)"
  shows "tokens h' p = tokens h p \<and> String (tokens h' p) = String (tokens h p)
       \<and> (\<forall>s i v h''. r = Ret s None \<and> store_elem h' s i v = Some h'' \<longrightarrow>
            tokens h'' p = tokens h p)"
proof -
  from assms(2) have k: "keeps h h' \<and> (\<forall>s. r = Ret s None \<longrightarrow> fresh h s)"
    using Parent_h_keeps [of h p h' r] Join_h_keeps [of grow url_Parse h p elems h' r]
      RelativeTo_h_keeps [of url_Parse h p other h' r] by blast
  then have t: "tokens h' p = tokens h p" using assms(1) by (simp add: tokens_keeps)
  have "tokens h'' p = tokens h p" if "r = Ret s None" "store_elem h' s i v = Some h''"
    for s i v h''
  proof -
    from k that(1) have "fresh h s" by blast
    with k that(2) have "keeps h h''" by (blast intro: store_elem_keeps)
    with assms(1) show ?thesis by (simp add: tokens_keeps)
  qed
  with t show ?thesis by auto
qed

text \<open>
  What \<open>RelativeTo\<close> returns next to its error: nil when the prefix is longer, the
  receiver itself when a token differs.
\<close>

lemma RelativeTo_mismatch_returns_alias:
  "RelativeTo_h url_Parse [[''a''], [''b'']] (Slice 0 0 1 1) (HPointer (Slice 1 0 1 1))
     = ([[''a''], [''b'']],
        Ret (Slice 0 0 1 1) (Some (errorString ''/a does not start with /b'')))
   \<and> store_elem [[''a''], [''b'']] (Slice 0 0 1 1) 0 ''x'' = Some [[''x''], [''b'']]
   \<and> tokens [[''a''], [''b'']] (Slice 0 0 1 1) = [''a'']
   \<and> tokens [[''x''], [''b'']] (Slice 0 0 1 1) = [''x'']
   \<and> RelativeTo_h url_Parse [[''a'']] (Slice 0 0 1 1) (HString ''/b/c'')
     = ([[''a'']], Ret NilSlice (Some (errorString ''/a does not start with /b/c'')))"
proof -
  have s: "String [''a''] = ''/a''" "String [''b''] = ''/b''" "String [''b'', ''c''] = ''/b/c''"
    by (simp_all add: String_def escapeToken_concat esc_byte_def)
  have n: "New url_Parse (AString ''/b/c'') = Inr [''b'', ''c'']"
    by (simp add: parse_def separator_def unescapeToken_def escapedSeparator_def
        escapedTilde_def tilde_def)
  have a: "RelativeTo_h url_Parse [[''a''], [''b'']] (Slice 0 0 1 1) (HPointer (Slice 1 0 1 1))
     = ([[''a''], [''b'']],
        Ret (Slice 0 0 1 1) (Some (errorString ''/a does not start with /b'')))"
    by (simp add: RelativeTo_h_def mismatch_def s)
  have b: "RelativeTo_h url_Parse [[''a'']] (Slice 0 0 1 1) (HString ''/b/c'')
     = ([[''a'']], Ret NilSlice (Some (errorString ''/a does not start with /b/c'')))"
    unfolding RelativeTo_h_def by (simp add: n mismatch_def s del: New.simps)
  have c: "store_elem [[''a''], [''b'']] (Slice 0 0 1 1) 0 ''x'' = Some [[''x''], [''b'']]"
    by (simp add: write_arr_def)
  from a b c show ?thesis by simp
qed

section \<open>The document after Set\<close>













lemma Set_setValue_error:
  "walk (ValueOf doc) p = Inr slot \<Longrightarrow> setValue ops slot v = Inl f \<Longrightarrow> Set ops p doc v = Inl f"
  by (simp add: Set_def)


section \<open>Coercion through Set\<close>




section \<open>The kind of each error\<close>

lemma New_url_failure_wraps:
  "s \<noteq> [] \<Longrightarrow> s \<noteq> ''#'' \<Longrightarrow> hd s \<noteq> CHR ''/'' \<Longrightarrow> url_Parse s = Inl uerr \<Longrightarrow>
   New url_Parse (AString s) =
     Inl (Returned (Error (''failed to parse URL: '' @ error_Error uerr) (Some uerr)
                      ErrInvalidJSONPointer))"
  by (simp add: wrapError_def)

lemma setValue_guarded_error:
  assumes "val_of slot = Some d" and "\<forall>x. d \<noteq> VIface x" and "CanSet slot"
    and "setValue ops slot (Some src) = Inl (Returned e)"
  shows "\<exists>m. e = Error m None ErrSet"
  using assms unfolding setValue_def Let_def
  by (cases d)
    (auto simp: newError_def
      dest: setValue_String_error setValue_Int_error setValue_Uint_error
        setValue_Float_error setValue_Bool_error setValue_Complex_error
        setValue_structured_error)

lemma Set_walk_error:
  "walk (ValueOf doc) p = Inl f \<Longrightarrow> Set ops p doc v = Inl f"
  by (simp add: Set_def)

lemma Set_guarded_error:
  assumes "walk (ValueOf doc) p = Inr slot" and "val_of slot = Some d" and "\<forall>x. d \<noteq> VIface x"
    and "CanSet slot" and "Set ops p doc (Some src) = Inl (Returned e)"
  shows "\<exists>m. e = Error m None ErrSet"
proof -
  from assms(1,5) have "setValue ops slot (Some src) = Inl (Returned e)"
    by (auto simp: Set_def split: sum.splits)
  from setValue_guarded_error [OF assms(2,3,4) this] show ?thesis .
qed

lemma Set_conversion_failed:
  assumes "walk (ValueOf doc) p = Inr slot" and "val_of slot = Some (VInt dk i)"
    and "CanSet slot" and "ParseInt s = None"
  shows "Set ops p doc (Some (VString s)) =
           Inl (Returned (Error (''conversion failed (string'' @ arrow @ ''int)'') None ErrSet))"
proof -
  from setValue_coerces [OF assms(3), of _ ops _ _ dk i s] assms(2,4)
  have "setValue ops slot (Some (VString s)) =
          Inl (Returned (Error (''conversion failed (string'' @ arrow @ ''int)'') None ErrSet))"
    by simp
  from Set_setValue_error [OF assms(1) this] show ?thesis .
qed

lemma RelativeTo_resolved:
  "((\<exists>s. other = AString s) \<or> (\<exists>u. other = AURL u)) \<Longrightarrow> New url_Parse other = Inr q' \<Longrightarrow>
   RelativeTo url_Parse p other = RelativeTo url_Parse p (APointer q')"
  by (auto simp: RelativeTo_def simp del: New.simps)

lemma RelativeTo_passes_New_error:
  "((\<exists>s. other = AString s) \<or> (\<exists>u. other = AURL u)) \<Longrightarrow> New url_Parse other = Inl f \<Longrightarrow>
   RelativeTo url_Parse p other = Inl f"
  by (auto simp: RelativeTo_def simp del: New.simps)

lemma Join_passes_New_error:
  assumes "(\<exists>s. part = AString s) \<or> (\<exists>u. part = AURL u)" and "New url_Parse part = Inl f"
    and "Join url_Parse p pre = Inr q'"
  shows "Join url_Parse p (pre @ part # post) = Inl f"
  using assms by (auto simp: Join_def Join_loop_append simp del: New.simps)

text \<open>
  C8, as the code has it. Every error \<open>New\<close> returns is an \<open>*Error\<close> of type
  \<open>ErrInvalidJSONPointer\<close>, which has \<open>Unwrap\<close>; it carries a cause exactly when the URL
  parser rejected the string, and the cause is the parser's error. Every error \<open>Get\<close>
  returns, and every error of the walk that \<open>Set\<close> starts with, is an \<open>*Error\<close> of type
  \<open>ErrGet\<close>; every error \<open>Set\<close> returns once the slot and the new value have passed
  its checks (a kind mismatch, a failed conversion, an unsupported kind) is an
  \<open>*Error\<close> of type \<open>ErrSet\<close>. None of these \<open>Get\<close> and \<open>Set\<close> errors has a cause: \<open>Unwrap\<close>
  returns nil, also when a string could not be parsed as a number. \<open>RelativeTo\<close>, and
  \<open>Join\<close> once the parts before were accepted, return the error of \<open>New\<close> unchanged
  when a string or URL part does not parse. The error \<open>RelativeTo\<close> returns for a prefix that is longer than the
  pointer or differs from it in a token is a plain error without \<open>Unwrap\<close>.
\<close>

theorem error_kinds:
  "(New url_Parse a = Inl (Returned e) \<longrightarrow>
      (\<exists>m c. e = Error m c ErrInvalidJSONPointer) \<and> has_Unwrap e
      \<and> (\<forall>uerr. Unwrap e = Some uerr \<longleftrightarrow>
            (\<exists>s. a = AString s \<and> s \<noteq> [] \<and> s \<noteq> ''#'' \<and> hd s \<noteq> CHR ''/''
                 \<and> url_Parse s = Inl uerr)))
   \<and> (Get p doc = Inl (Returned e) \<longrightarrow>
      (\<exists>m. e = Error m None ErrGet) \<and> has_Unwrap e \<and> Unwrap e = None)
   \<and> (walk (ValueOf doc) p = Inl f \<longrightarrow>
      Set ops p doc v = Inl f
      \<and> (f = Returned e \<longrightarrow> (\<exists>m. e = Error m None ErrGet) \<and> has_Unwrap e \<and> Unwrap e = None))
   \<and> (walk (ValueOf doc) p = Inr slot \<and> val_of slot = Some d \<and> (\<forall>x. d \<noteq> VIface x)
        \<and> CanSet slot \<and> Set ops p doc (Some src) = Inl (Returned e) \<longrightarrow>
      (\<exists>m. e = Error m None ErrSet) \<and> has_Unwrap e \<and> Unwrap e = None)
   \<and> (walk (ValueOf doc) p = Inr slot \<and> val_of slot = Some (VInt dk i) \<and> CanSet slot
        \<and> ParseInt s = None \<longrightarrow>
      Set ops p doc (Some (VString s)) =
        Inl (Returned (Error (''conversion failed (string'' @ arrow @ ''int)'') None ErrSet)))
   \<and> (((\<exists>s. part = AString s) \<or> (\<exists>u. part = AURL u)) \<and> New url_Parse part = Inl f \<longrightarrow>
      RelativeTo url_Parse q part = Inl f
      \<and> (Join url_Parse q pre = Inr q' \<longrightarrow> Join url_Parse q (pre @ part # post) = Inl f))
   \<and> ((other = APointer q'
         \<or> ((\<exists>s. other = AString s) \<or> (\<exists>u. other = AURL u)) \<and> New url_Parse other = Inr q')
        \<and> (length q' > length q \<or> take (length q') q \<noteq> q') \<longrightarrow>
      RelativeTo url_Parse q other = Inl (Returned (mismatch q q'))
      \<and> \<not> has_Unwrap (mismatch q q'))"
proof -
  have n: "New url_Parse a = Inl (Returned e) \<longrightarrow>
      (\<exists>m c. e = Error m c ErrInvalidJSONPointer) \<and> has_Unwrap e
      \<and> (\<forall>uerr. Unwrap e = Some uerr \<longleftrightarrow>
            (\<exists>s. a = AString s \<and> s \<noteq> [] \<and> s \<noteq> ''#'' \<and> hd s \<noteq> CHR ''/''
                 \<and> url_Parse s = Inl uerr))"
  proof
    assume r: "New url_Parse a = Inl (Returned e)"
    from New_error_typed [OF r] have t: "(\<exists>m c. e = Error m c ErrInvalidJSONPointer) \<and> has_Unwrap e"
      by auto
    have "Unwrap e = Some uerr \<longleftrightarrow>
            (\<exists>s. a = AString s \<and> s \<noteq> [] \<and> s \<noteq> ''#'' \<and> hd s \<noteq> CHR ''/''
                 \<and> url_Parse s = Inl uerr)" for uerr
    proof
      assume u: "Unwrap e = Some uerr"
      with New_error_cause [OF r] obtain s where s: "a = AString s" "url_Parse s = Inl uerr"
        by auto
      from r s(1) have "s \<noteq> [] \<and> s \<noteq> ''#''" by (auto split: if_splits)
      moreover have "hd s \<noteq> CHR ''/''"
      proof
        assume "hd s = CHR ''/''"
        with r s(1) calculation have "parse s = Inl (Returned e)" by simp
        from parse_failure_typed [OF this] u show False by auto
      qed
      ultimately show "\<exists>s. a = AString s \<and> s \<noteq> [] \<and> s \<noteq> ''#'' \<and> hd s \<noteq> CHR ''/''
                 \<and> url_Parse s = Inl uerr"
        using s by blast
    next
      assume "\<exists>s. a = AString s \<and> s \<noteq> [] \<and> s \<noteq> ''#'' \<and> hd s \<noteq> CHR ''/''
                 \<and> url_Parse s = Inl uerr"
      then obtain s where s: "a = AString s" "s \<noteq> []" "s \<noteq> ''#''" "hd s \<noteq> CHR ''/''"
        "url_Parse s = Inl uerr" by blast
      from New_url_failure_wraps [of s url_Parse uerr] s have
        "New url_Parse a = Inl (Returned (Error (''failed to parse URL: '' @ error_Error uerr)
           (Some uerr) ErrInvalidJSONPointer))" by simp
      with r have "e = Error (''failed to parse URL: '' @ error_Error uerr)
           (Some uerr) ErrInvalidJSONPointer" by simp
      then show "Unwrap e = Some uerr" by simp
    qed
    with t show "(\<exists>m c. e = Error m c ErrInvalidJSONPointer) \<and> has_Unwrap e
      \<and> (\<forall>uerr. Unwrap e = Some uerr \<longleftrightarrow>
            (\<exists>s. a = AString s \<and> s \<noteq> [] \<and> s \<noteq> ''#'' \<and> hd s \<noteq> CHR ''/''
                 \<and> url_Parse s = Inl uerr))"
      by blast
  qed
  have g: "Get p doc = Inl (Returned e) \<longrightarrow>
      (\<exists>m. e = Error m None ErrGet) \<and> has_Unwrap e \<and> Unwrap e = None"
    using Get_error_typed [of p doc e] by auto
  have w: "walk (ValueOf doc) p = Inl f \<longrightarrow>
      Set ops p doc v = Inl f
      \<and> (f = Returned e \<longrightarrow> (\<exists>m. e = Error m None ErrGet) \<and> has_Unwrap e \<and> Unwrap e = None)"
    using Set_walk_error [of doc p f ops v] walk_error_typed [of "ValueOf doc" p e] by auto
  have c: "walk (ValueOf doc) p = Inr slot \<and> val_of slot = Some d \<and> (\<forall>x. d \<noteq> VIface x)
        \<and> CanSet slot \<and> Set ops p doc (Some src) = Inl (Returned e) \<longrightarrow>
      (\<exists>m. e = Error m None ErrSet) \<and> has_Unwrap e \<and> Unwrap e = None"
    using Set_guarded_error [of doc p slot d ops src e] by auto
  have x: "walk (ValueOf doc) p = Inr slot \<and> val_of slot = Some (VInt dk i) \<and> CanSet slot
        \<and> ParseInt s = None \<longrightarrow>
      Set ops p doc (Some (VString s)) =
        Inl (Returned (Error (''conversion failed (string'' @ arrow @ ''int)'') None ErrSet))"
    using Set_conversion_failed [of doc p slot dk i s ops] by blast
  have j: "((\<exists>s. part = AString s) \<or> (\<exists>u. part = AURL u)) \<and> New url_Parse part = Inl f \<longrightarrow>
      RelativeTo url_Parse q part = Inl f
      \<and> (Join url_Parse q pre = Inr q' \<longrightarrow> Join url_Parse q (pre @ part # post) = Inl f)"
    using RelativeTo_passes_New_error [of part url_Parse f q]
      Join_passes_New_error [of part url_Parse f q pre q' post] by blast
  have r: "(other = APointer q'
         \<or> ((\<exists>s. other = AString s) \<or> (\<exists>u. other = AURL u)) \<and> New url_Parse other = Inr q')
        \<and> (length q' > length q \<or> take (length q') q \<noteq> q') \<longrightarrow>
      RelativeTo url_Parse q other = Inl (Returned (mismatch q q'))
      \<and> \<not> has_Unwrap (mismatch q q')"
    using RelativeTo_resolved [of other url_Parse q' q] RelativeTo_mismatch [of q q' url_Parse]
    by (auto simp: mismatch_def simp del: New.simps)
  from n g w c x j r show ?thesis by blast
qed

theorem error_kinds_witness:
  "New cut_fragment (AString ''://'') =
     Inl (Returned (Error ''failed to parse URL: missing protocol scheme''
                      (Some (errorString ''missing protocol scheme'')) ErrInvalidJSONPointer))
   \<and> cut_fragment ''://'' = Inl (errorString ''missing protocol scheme'')
   \<and> has_Unwrap (Error ''failed to parse URL: missing protocol scheme''
                      (Some (errorString ''missing protocol scheme'')) ErrInvalidJSONPointer)
   \<and> RelativeTo cut_fragment [''a''] (APointer [''b'']) = Inl (Returned (mismatch [''a''] [''b'']))
   \<and> \<not> has_Unwrap (mismatch [''a''] [''b''])"
proof -
  have a: "New cut_fragment (AString ''://'') =
     Inl (Returned (Error ''failed to parse URL: missing protocol scheme''
                      (Some (errorString ''missing protocol scheme'')) ErrInvalidJSONPointer))"
    by (simp add: cut_fragment_def wrapError_def)
  have c: "cut_fragment ''://'' = Inl (errorString ''missing protocol scheme'')"
    by (simp add: cut_fragment_def)
  note k = error_kinds [where url_Parse = cut_fragment and a = "AString ''://''"
      and e = "Error ''failed to parse URL: missing protocol scheme''
         (Some (errorString ''missing protocol scheme'')) ErrInvalidJSONPointer"
      and q = "[''a'']" and other = "APointer [''b'']" and q' = "[''b'']"]
  from k [THEN conjunct1] a
  have u: "has_Unwrap (Error ''failed to parse URL: missing protocol scheme''
                      (Some (errorString ''missing protocol scheme'')) ErrInvalidJSONPointer)"
    by blast
  from k [THEN conjunct2, THEN conjunct2, THEN conjunct2, THEN conjunct2, THEN conjunct2,
      THEN conjunct2]
  have r: "RelativeTo cut_fragment [''a''] (APointer [''b'']) = Inl (Returned (mismatch [''a''] [''b'']))
     \<and> \<not> has_Unwrap (mismatch [''a''] [''b''])"
    by simp
  from a c u r show ?thesis by blast
qed

section \<open>An example: Join leaves its receiver alone\<close>

theorem derived_pointers_independent_witness:
  "valid [[''foo'']] (Slice 0 0 1 1)
   \<and> Join_h grow_double cut_fragment [[''foo'']] (Slice 0 0 1 1) [HString ''/0'']
       = ([[''foo''], [''foo''], [''foo'', ''0'']], Ret (Slice 2 0 2 2) None)
   \<and> tokens [[''foo''], [''foo''], [''foo'', ''0'']] (Slice 2 0 2 2) = [''foo'', ''0'']
   \<and> tokens [[''foo''], [''foo''], [''foo'', ''0'']] (Slice 0 0 1 1) = [''foo'']
   \<and> String (tokens [[''foo''], [''foo''], [''foo'', ''0'']] (Slice 0 0 1 1)) = ''/foo''
   \<and> store_elem [[''foo''], [''foo''], [''foo'', ''0'']] (Slice 2 0 2 2) 0 ''x''
       = Some [[''foo''], [''foo''], [''x'', ''0'']]
   \<and> tokens [[''foo''], [''foo''], [''x'', ''0'']] (Slice 0 0 1 1) = [''foo'']"
proof -
  let ?h = "[[''foo'']]"
  let ?p = "Slice 0 0 1 1"
  let ?h' = "[[''foo''], [''foo''], [''foo'', ''0'']]"
  have v: "valid ?h ?p" by simp
  have n: "New cut_fragment (AString ''/0'') = Inr [''0'']"
    by (simp add: parse_def separator_def unescapeToken_def escapedSeparator_def
        escapedTilde_def tilde_def)
  have j: "Join_h grow_double cut_fragment ?h ?p [HString ''/0'']
       = (?h', Ret (Slice 2 0 2 2) None)"
    unfolding Join_h_def
    by (simp add: n make_h_def write_arr_def grow_double_def del: New.simps)
  have st: "store_elem ?h' (Slice 2 0 2 2) 0 ''x'' = Some [[''foo''], [''foo''], [''x'', ''0'']]"
    by (simp add: write_arr_def)
  have s: "String [''foo''] = ''/foo''"
    by (simp add: String_def escapeToken_concat esc_byte_def)
  from derived_pointers_independent [OF v, of ?h' "Ret (Slice 2 0 2 2) None"
      grow_double cut_fragment "[HString ''/0'']"] j st
  have "tokens ?h' ?p = tokens ?h ?p \<and> String (tokens ?h' ?p) = String (tokens ?h ?p)
      \<and> tokens [[''foo''], [''foo''], [''x'', ''0'']] ?p = tokens ?h ?p"
    by blast
  with v j st s show ?thesis by simp
qed

end
